theory Spec2Isabelle
  imports Complex_Main "HOL-Library.Sublist"
begin

text \<open>
  A model of the content synchronisation pipeline of the search backend: the error
  classifier and retry engine, the paginated fetch from the content source, the
  transformation into canonical entries, the batched embedding of entries, the upsert
  into the store, and the job that runs these phases under its concurrency guard.

  Every call on a collaborator (content source, embedding provider, store) is a function
  of the state of the outside world that throws or returns and leaves a new state; the
  job's own state is passed explicitly. Logging and pauses are left out throughout.
\<close>

section \<open>Error classifier and retry engine (backend/utils/retry.js)\<close>

subsection \<open>Error values\<close>

text \<open>
  An error is a JavaScript object; the classifier reads five of its properties. A missing
  property is \<open>None\<close>. \<open>error_code\<close> is a number in provider responses and a string in
  the repository's tests, so both are kept. The status properties are numbers.
\<close>

datatype code = CodeNum int | CodeStr string

record js_error =
  error_code :: "code option"
  error_message :: "string option"
  status :: "int option"
  statusCode :: "int option"
  message :: "string option"

datatype ErrorCategory =
  AUTHENTICATION | AUTHORIZATION | RATE_LIMIT | TIMEOUT | NETWORK | NOT_FOUND
  | VALIDATION | SERVER_ERROR | CLIENT_ERROR | UNKNOWN

text \<open>JavaScript truthiness of the property values that the code tests.\<close>

fun truthy_code :: "code option \<Rightarrow> bool" where
  "truthy_code None = False"
| "truthy_code (Some (CodeNum n)) = (n \<noteq> 0)"
| "truthy_code (Some (CodeStr s)) = (s \<noteq> [])"

fun truthy_str :: "string option \<Rightarrow> bool" where
  "truthy_str None = False"
| "truthy_str (Some s) = (s \<noteq> [])"

fun truthy_num :: "int option \<Rightarrow> bool" where
  "truthy_num None = False"
| "truthy_num (Some n) = (n \<noteq> 0)"

text \<open>\<open>a || b\<close> on two numeric properties: the first one when it is truthy.\<close>

definition or_num :: "int option \<Rightarrow> int option \<Rightarrow> int option" where
  "or_num a b = (if truthy_num a then a else b)"

text \<open>\<open>error.status >= n\<close> and \<open>error.status < n\<close>: false on a missing status.\<close>

fun num_ge :: "int option \<Rightarrow> int \<Rightarrow> bool" where
  "num_ge None n = False"
| "num_ge (Some s) n = (n \<le> s)"

fun num_lt :: "int option \<Rightarrow> int \<Rightarrow> bool" where
  "num_lt None n = False"
| "num_lt (Some s) n = (s < n)"

subsection \<open>Strings\<close>

text \<open>
  \<open>String.prototype.includes\<close> is the substring test; \<open>toLowerCase\<close> is modelled on
  the ASCII letters, which is all the message vocabulary of the classifier uses.
\<close>

fun str_includes :: "string \<Rightarrow> string \<Rightarrow> bool" where
  "str_includes [] sub = (sub = [])"
| "str_includes (c # cs) sub = (prefix sub (c # cs) \<or> str_includes cs sub)"

definition lower_char :: "char \<Rightarrow> char" where
  "lower_char c =
     (case map_of (zip ''ABCDEFGHIJKLMNOPQRSTUVWXYZ'' ''abcdefghijklmnopqrstuvwxyz'') c of
        None \<Rightarrow> c
      | Some l \<Rightarrow> l)"

definition toLowerCase :: "string \<Rightarrow> string" where
  "toLowerCase s = map lower_char s"

text \<open>\<open>(error.message || "").toLowerCase()\<close>\<close>

definition lowered_message :: "js_error \<Rightarrow> string" where
  "lowered_message error =
     toLowerCase (case message error of None \<Rightarrow> [] | Some m \<Rightarrow> m)"

subsection \<open>categorizeError\<close>

definition categorize_by_message :: "string \<Rightarrow> ErrorCategory" where
  "categorize_by_message errorMessage =
     (if str_includes errorMessage ''timeout'' \<or> str_includes errorMessage ''etimedout''
        then TIMEOUT
      else if str_includes errorMessage ''network'' \<or> str_includes errorMessage ''connection''
          \<or> str_includes errorMessage ''econnreset'' \<or> str_includes errorMessage ''enotfound''
          \<or> str_includes errorMessage ''socket hang up''
        then NETWORK
      else if str_includes errorMessage ''unauthorized''
          \<or> str_includes errorMessage ''authentication''
        then AUTHENTICATION
      else if str_includes errorMessage ''forbidden'' \<or> str_includes errorMessage ''permission''
        then AUTHORIZATION
      else if str_includes errorMessage ''not found'' then NOT_FOUND
      else if str_includes errorMessage ''validation'' \<or> str_includes errorMessage ''invalid''
        then VALIDATION
      else if str_includes errorMessage ''rate limit''
          \<or> str_includes errorMessage ''too many requests''
        then RATE_LIMIT
      else UNKNOWN)"

text \<open>The second block of \<open>categorizeError\<close>: the HTTP status, then the message.\<close>

definition categorize_by_status :: "js_error \<Rightarrow> ErrorCategory" where
  "categorize_by_status error =
     (let st = or_num (status error) (statusCode error) in
      if truthy_num st \<and> st = Some 401 then AUTHENTICATION
      else if truthy_num st \<and> st = Some 403 then AUTHORIZATION
      else if truthy_num st \<and> st = Some 404 then NOT_FOUND
      else if truthy_num st \<and> st = Some 429 then RATE_LIMIT
      else if truthy_num st \<and> num_ge st 500 then SERVER_ERROR
      else if truthy_num st \<and> num_ge st 400 then CLIENT_ERROR
      else categorize_by_message (lowered_message error))"

definition categorizeError :: "js_error \<Rightarrow> ErrorCategory" where
  "categorizeError error =
     (if truthy_code (error_code error) \<or> truthy_str (error_message error) then
        (if status error = Some 401 \<or> error_code error = Some (CodeStr ''UNAUTHORIZED'')
           then AUTHENTICATION
         else if status error = Some 403 \<or> error_code error = Some (CodeStr ''FORBIDDEN'')
           then AUTHORIZATION
         else if status error = Some 429
             \<or> error_code error = Some (CodeStr ''RATE_LIMIT_EXCEEDED'')
           then RATE_LIMIT
         else if num_ge (status error) 500 then SERVER_ERROR
         else if num_ge (status error) 400 \<and> num_lt (status error) 500 then CLIENT_ERROR
         else categorize_by_status error)
      else categorize_by_status error)"

subsection \<open>isRetryableError\<close>

definition transientMessages :: "string list" where
  "transientMessages =
     [''timeout'', ''connection reset'', ''connection refused'', ''network error'',
      ''socket hang up'', ''econnreset'', ''enotfound'', ''etimedout'',
      ''service unavailable'', ''bad gateway'', ''gateway timeout'']"

definition retryable_status :: "js_error \<Rightarrow> bool" where
  "retryable_status error =
     (let st = or_num (status error) (statusCode error) in
      truthy_num st \<and> st \<in> set [Some 429, Some 502, Some 503, Some 504])"

definition transient_message :: "js_error \<Rightarrow> bool" where
  "transient_message error =
     list_ex (\<lambda>msg. str_includes (lowered_message error) msg) transientMessages"

definition isRetryableError :: "js_error \<Rightarrow> bool" where
  "isRetryableError error =
     (let errorType = categorizeError error in
      if errorType = NETWORK \<or> errorType = TIMEOUT then True
      else if errorType = RATE_LIMIT then True
      else if errorType = SERVER_ERROR then True
      else if retryable_status error then True
      else if transient_message error then True
      else False)"

subsection \<open>withRetry\<close>

text \<open>
  The operation is an effectful thunk: it is run in a state of the outside world and
  either throws (\<open>Inl\<close>) or returns (\<open>Inr\<close>), leaving a new state. The loop variable
  \<open>lastError\<close> starts undefined (\<open>None\<close>); the value thrown is therefore an optional
  error. \<open>maxRetries\<close> is a number of retries, a natural number (the defaults of the
  options are 3 retries and \<open>isRetryableError\<close>). Logging and the back-off sleep between
  attempts change neither the result nor the number of invocations and are left out.
\<close>

function withRetry_loop ::
  "('s \<Rightarrow> ('e + 'a) \<times> 's) \<Rightarrow> nat \<Rightarrow> ('e \<Rightarrow> bool) \<Rightarrow> nat \<Rightarrow> 'e option \<Rightarrow> 's
     \<Rightarrow> ('e option + 'a) \<times> 's" where
  "withRetry_loop operation maxRetries shouldRetry attempt lastError s =
     (if attempt \<le> maxRetries + 1 then
        (case operation s of
           (Inr result, s') \<Rightarrow> (Inr result, s')
         | (Inl error, s') \<Rightarrow>
             if attempt > maxRetries \<or> \<not> shouldRetry error then (Inl (Some error), s')
             else withRetry_loop operation maxRetries shouldRetry (attempt + 1)
                    (Some error) s')
      else (Inl lastError, s))"
  by pat_completeness auto
termination
  by (relation "measure (\<lambda>(operation, maxRetries, shouldRetry, attempt, lastError, s).
        maxRetries + 2 - attempt)") auto

definition withRetry ::
  "('s \<Rightarrow> ('e + 'a) \<times> 's) \<Rightarrow> nat \<Rightarrow> ('e \<Rightarrow> bool) \<Rightarrow> 's \<Rightarrow> ('e option + 'a) \<times> 's" where
  "withRetry operation maxRetries shouldRetry s =
     withRetry_loop operation maxRetries shouldRetry 1 None s"

text \<open>
  Observation devices for statements about invocations: \<open>counted\<close> wraps an operation
  so that the state carries the number of times it was invoked (what a mock function
  records); \<open>state_after\<close> and \<open>outcome\<close> name the state after \<open>k\<close> consecutive
  invocations and the result of the next one.
\<close>

definition counted :: "('s \<Rightarrow> 'r \<times> 's) \<Rightarrow> 's \<times> nat \<Rightarrow> 'r \<times> ('s \<times> nat)" where
  "counted operation = (\<lambda>(s, n). case operation s of (r, s') \<Rightarrow> (r, (s', n + 1)))"

fun state_after :: "('s \<Rightarrow> 'r \<times> 's) \<Rightarrow> 's \<Rightarrow> nat \<Rightarrow> 's" where
  "state_after operation s 0 = s"
| "state_after operation s (Suc k) = snd (operation (state_after operation s k))"

definition outcome :: "('s \<Rightarrow> 'r \<times> 's) \<Rightarrow> 's \<Rightarrow> nat \<Rightarrow> 'r" where
  "outcome operation s k = fst (operation (state_after operation s k))"


subsection \<open>Sample errors and operations\<close>

definition timeout_error :: js_error where
  "timeout_error = \<lparr>error_code = None, error_message = None, status = None,
     statusCode = None, message = Some ''Request timeout''\<rparr>"

definition unauthorized_error :: js_error where
  "unauthorized_error = \<lparr>error_code = None, error_message = None, status = Some 401,
     statusCode = None, message = Some ''Authentication failed''\<rparr>"

text \<open>
  Three operations over a world that only counts the calls made so far: one that fails
  with a timeout on its first two invocations and then succeeds, one that is always
  rejected with status 401, one that always times out.
\<close>

definition flaky_operation :: "nat \<Rightarrow> (js_error + string) \<times> nat" where
  "flaky_operation k = (if k < 2 then Inl timeout_error else Inr ''success'', Suc k)"

definition rejected_operation :: "nat \<Rightarrow> (js_error + string) \<times> nat" where
  "rejected_operation k = (Inl unauthorized_error, Suc k)"

definition failing_operation :: "nat \<Rightarrow> (js_error + string) \<times> nat" where
  "failing_operation k = (Inl timeout_error, Suc k)"



section \<open>Records of the pipeline\<close>

text \<open>
  A raw entry is what the content source returns for one item in one locale. The
  pipeline itself reads its \<open>uid\<close> and its update stamps; every other field varies by
  content type and is read only by the field-extraction policy, so it is kept opaque.
\<close>

record 'x raw_entry =
  raw_uid :: "string option"
  raw_updated_at :: "string option"
  raw_metadata_updated_at :: "string option"
  raw_fields :: 'x

text \<open>The canonical entry built by \<open>transformEntry\<close> (its \<open>id\<close> and \<open>locale\<close> are \<open>entry_id\<close> and \<open>entry_locale\<close> here).\<close>

record 'x content_entry =
  entry_id :: string
  uid :: "string option"
  title :: string
  snippet :: string
  url :: string
  content_type :: string
  entry_locale :: string
  updated_at :: string
  tags :: "string list"
  category :: "string option"
  raw_data :: "'x raw_entry"

text \<open>
  An embedding slot is what \<open>embeddings[index]\<close> can be: a vector, \<open>null\<close> (written by
  a failed batch), or \<open>undefined\<close> (an index past the end of the array).
\<close>

type_synonym vector = "real list"

datatype embedding_slot = Vec vector | Null | Undefined

record 'x processed_entry =
  entry_of :: "'x content_entry"
  embedding :: embedding_slot

text \<open>One page of a content type in a locale, as \<open>getEntriesByContentType\<close> returns it.\<close>

record 'x page =
  entries :: "'x raw_entry list"
  count :: nat

text \<open>
  The collaborators. Each is an effectful call on the outside world \<open>'w\<close> that throws
  (\<open>Inl\<close>) or returns (\<open>Inr\<close>). The content source is the pair of service methods
  \<open>getContentTypes\<close> (only the \<open>uid\<close> of a content type is ever read, so it returns the
  uids) and \<open>getEntriesByContentType\<close>.
\<close>

record ('w, 'x) content_source =
  getContentTypes :: "'w \<Rightarrow> (js_error + string list) \<times> 'w"
  getEntriesByContentType ::
    "string \<Rightarrow> string \<Rightarrow> nat \<Rightarrow> nat \<Rightarrow> 'w \<Rightarrow> (js_error + 'x page) \<times> 'w"

text \<open>
  Configuration and policy that the pipeline is parameterised by: the content-type
  manager's field extraction, the text it builds for an embedding, the two pieces of
  diagnostic formatting that end up inside error messages, the parsed
  \<open>CONTENTSTACK_LOCALES\<close> variable, the provider's token budget, and the clock.
\<close>

record ('w, 'x) config =
  extractTitle :: "'x raw_entry \<Rightarrow> string \<Rightarrow> string"
  extractSnippet :: "'x raw_entry \<Rightarrow> string \<Rightarrow> string"
  generateUrl :: "'x raw_entry \<Rightarrow> string \<Rightarrow> string"
  extractTags :: "'x raw_entry \<Rightarrow> string \<Rightarrow> string list"
  extractCategory :: "'x raw_entry \<Rightarrow> string \<Rightarrow> string option"
  generateEmbeddingText :: "'x content_entry \<Rightarrow> js_error + string"
  formatContentstackError :: "js_error \<Rightarrow> string"
  JSON_stringify :: "js_error \<Rightarrow> string"
  CONTENTSTACK_LOCALES :: "string list option"
  openai_maxTokens :: nat
  now :: "'w \<Rightarrow> string"

text \<open>\<open>new Error(m)\<close>, and \<open>error.message\<close> inside a template literal.\<close>

definition new_Error :: "string \<Rightarrow> js_error" where
  "new_Error m = \<lparr>error_code = None, error_message = None, status = None,
     statusCode = None, message = Some m\<rparr>"

definition message_text :: "js_error \<Rightarrow> string" where
  "message_text error = (case message error of None \<Rightarrow> ''undefined'' | Some m \<Rightarrow> m)"

text \<open>\<open>error.message || JSON.stringify(error)\<close>\<close>

definition message_or_json :: "('w, 'x) config \<Rightarrow> js_error \<Rightarrow> string" where
  "message_or_json cfg error =
     (if truthy_str (message error) then message_text error else JSON_stringify cfg error)"

section \<open>Embeddings service\<close>

subsection \<open>truncateText\<close>

text \<open>\<open>lastIndexOf\<close>: the index of the last occurrence, or \<open>-1\<close>.\<close>

fun lastIndexOf :: "string \<Rightarrow> char \<Rightarrow> int" where
  "lastIndexOf [] c = - 1"
| "lastIndexOf (x # xs) c =
     (let r = lastIndexOf xs c in if 0 \<le> r then r + 1 else if x = c then 0 else - 1)"

text \<open>
  The test \<open>lastSpaceIndex > maxChars * 0.8\<close> compares an integer with four fifths of an
  integer; it is written here without fractions.
\<close>

definition truncateText :: "string \<Rightarrow> nat \<Rightarrow> string" where
  "truncateText text maxTokens =
     (if text = [] then []
      else
        let maxChars = maxTokens * 4 in
        if length text \<le> maxChars then text
        else
          let truncated = take maxChars text;
              lastSpaceIndex = lastIndexOf truncated CHR '' ''
          in (if 5 * lastSpaceIndex > 4 * int maxChars
              then take (nat lastSpaceIndex) truncated
              else truncated) @ ''...'')"

subsection \<open>generateEmbeddings\<close>

text \<open>
  The provider call \<open>openai.embeddings.create\<close> takes the prepared texts of one batch and
  returns a response whose \<open>data\<close> may be missing; each item of \<open>data\<close> carries one vector.

  The loop advances \<open>i\<close> by \<open>batchSize\<close>. With \<open>batchSize = 0\<close> and a text left to
  process it never advances, so it does not return: that is the value \<open>None\<close>.
\<close>

function generateEmbeddings_loop ::
  "(string list \<Rightarrow> 'w \<Rightarrow> (js_error + vector list option) \<times> 'w) \<Rightarrow> nat \<Rightarrow> nat
     \<Rightarrow> string list \<Rightarrow> nat \<Rightarrow> embedding_slot list \<Rightarrow> 'w
     \<Rightarrow> (embedding_slot list \<times> 'w) option" where
  "generateEmbeddings_loop create maxTok batchSize texts i embeddings w =
     (if i < length texts then
        (if batchSize = 0 then None
         else
           let batch = take batchSize (drop i texts);
               preparedTexts = map (\<lambda>text. truncateText text maxTok) batch
           in case create preparedTexts w of
                (Inr (Some data), w') \<Rightarrow>
                  if length data \<noteq> length batch
                  then generateEmbeddings_loop create maxTok batchSize texts (i + batchSize)
                         (embeddings @ replicate (length batch) Null) w'
                  else generateEmbeddings_loop create maxTok batchSize texts (i + batchSize)
                         (embeddings @ map Vec data) w'
              | (Inr None, w') \<Rightarrow>
                  generateEmbeddings_loop create maxTok batchSize texts (i + batchSize)
                    (embeddings @ replicate (length batch) Null) w'
              | (Inl error, w') \<Rightarrow>
                  generateEmbeddings_loop create maxTok batchSize texts (i + batchSize)
                    (embeddings @ replicate (length batch) Null) w')
      else Some (embeddings, w))"
  by pat_completeness auto
termination
  by (relation "measure (\<lambda>(create, maxTok, batchSize, texts, i, embeddings, w).
        length texts - i)") auto

definition generateEmbeddings ::
  "(string list \<Rightarrow> 'w \<Rightarrow> (js_error + vector list option) \<times> 'w) \<Rightarrow> nat \<Rightarrow> string list
     \<Rightarrow> nat \<Rightarrow> 'w \<Rightarrow> ((js_error + embedding_slot list) \<times> 'w) option" where
  "generateEmbeddings create maxTok texts batchSize w =
     (if texts = [] then Some (Inl (new_Error ''Texts must be a non-empty array''), w)
      else case generateEmbeddings_loop create maxTok batchSize texts 0 [] w of
             None \<Rightarrow> None
           | Some (embeddings, w') \<Rightarrow> Some (Inr embeddings, w'))"

subsection \<open>processContentEntries\<close>

text \<open>\<open>entry.title || entry.snippet || "No content available"\<close>\<close>

definition fallback_text :: "'x content_entry \<Rightarrow> string" where
  "fallback_text e =
     (if title e \<noteq> [] then title e
      else if snippet e \<noteq> [] then snippet e
      else ''No content available'')"

definition embeddingText :: "('w, 'x) config \<Rightarrow> 'x content_entry \<Rightarrow> string" where
  "embeddingText cfg e =
     (case generateEmbeddingText cfg e of Inr text \<Rightarrow> text | Inl error \<Rightarrow> fallback_text e)"

text \<open>\<open>embeddings[index]\<close>\<close>

definition slot_at :: "embedding_slot list \<Rightarrow> nat \<Rightarrow> embedding_slot" where
  "slot_at embeddings index =
     (if index < length embeddings then embeddings ! index else Undefined)"

definition attach_embeddings ::
  "'x content_entry list \<Rightarrow> embedding_slot list \<Rightarrow> 'x processed_entry list" where
  "attach_embeddings es embeddings =
     map (\<lambda>(e, index). \<lparr>entry_of = e, embedding = slot_at embeddings index\<rparr>)
       (zip es [0..<length es])"

definition processContentEntries ::
  "('w, 'x) config \<Rightarrow> (string list \<Rightarrow> 'w \<Rightarrow> (js_error + vector list option) \<times> 'w)
     \<Rightarrow> 'x content_entry list \<Rightarrow> 'w
     \<Rightarrow> ((js_error + 'x processed_entry list) \<times> 'w) option" where
  "processContentEntries cfg create es w =
     (let embeddingTexts = map (embeddingText cfg) es in
      case generateEmbeddings create (openai_maxTokens cfg) embeddingTexts 100 w of
        None \<Rightarrow> None
      | Some (Inl error, w') \<Rightarrow> Some (Inl error, w')
      | Some (Inr embeddings, w') \<Rightarrow>
          Some (Inr (filter (\<lambda>p. embedding p \<noteq> Null) (attach_embeddings es embeddings)), w'))"

subsection \<open>Naming the batches of a run of generateEmbeddings\<close>

text \<open>
  Batch \<open>k\<close> is the slice \<open>texts.slice(k \<times> batchSize, (k + 1) \<times> batchSize)\<close>. The provider
  is called once per batch, in order; \<open>world_before_batch\<close> is the state of the world in
  which the call for batch \<open>k\<close> is made and \<open>batch_response\<close> is what that call yields.
  A batch succeeds when the provider returns data with one item per text.
\<close>

definition batch_texts :: "nat \<Rightarrow> string list \<Rightarrow> nat \<Rightarrow> string list" where
  "batch_texts batchSize texts k = take batchSize (drop (k * batchSize) texts)"

fun world_before_batch ::
  "(string list \<Rightarrow> 'w \<Rightarrow> (js_error + vector list option) \<times> 'w) \<Rightarrow> nat \<Rightarrow> nat
     \<Rightarrow> string list \<Rightarrow> 'w \<Rightarrow> nat \<Rightarrow> 'w" where
  "world_before_batch create maxTok batchSize texts w 0 = w"
| "world_before_batch create maxTok batchSize texts w (Suc k) =
     snd (create (map (\<lambda>text. truncateText text maxTok) (batch_texts batchSize texts k))
            (world_before_batch create maxTok batchSize texts w k))"

definition batch_response ::
  "(string list \<Rightarrow> 'w \<Rightarrow> (js_error + vector list option) \<times> 'w) \<Rightarrow> nat \<Rightarrow> nat
     \<Rightarrow> string list \<Rightarrow> 'w \<Rightarrow> nat \<Rightarrow> js_error + vector list option" where
  "batch_response create maxTok batchSize texts w k =
     fst (create (map (\<lambda>text. truncateText text maxTok) (batch_texts batchSize texts k))
            (world_before_batch create maxTok batchSize texts w k))"

definition batch_data ::
  "(string list \<Rightarrow> 'w \<Rightarrow> (js_error + vector list option) \<times> 'w) \<Rightarrow> nat \<Rightarrow> nat
     \<Rightarrow> string list \<Rightarrow> 'w \<Rightarrow> nat \<Rightarrow> vector list option" where
  "batch_data create maxTok batchSize texts w k =
     (case batch_response create maxTok batchSize texts w k of
        Inr (Some data) \<Rightarrow>
          if length data = length (batch_texts batchSize texts k) then Some data else None
      | Inr None \<Rightarrow> None
      | Inl error \<Rightarrow> None)"

text \<open>What position \<open>i\<close> of the result has to hold.\<close>

definition expected_slot ::
  "(string list \<Rightarrow> 'w \<Rightarrow> (js_error + vector list option) \<times> 'w) \<Rightarrow> nat \<Rightarrow> nat
     \<Rightarrow> string list \<Rightarrow> 'w \<Rightarrow> nat \<Rightarrow> embedding_slot" where
  "expected_slot create maxTok batchSize texts w i =
     (case batch_data create maxTok batchSize texts w (i div batchSize) of
        Some data \<Rightarrow> Vec (data ! (i mod batchSize))
      | None \<Rightarrow> Null)"

subsection \<open>A sample provider and sample entries\<close>

text \<open>
  A provider over a world that counts its calls: the second call fails with status 500,
  every other call returns one vector per text, holding the length of the text.
\<close>

definition sample_create :: "string list \<Rightarrow> nat \<Rightarrow> (js_error + vector list option) \<times> nat" where
  "sample_create texts w =
     (if w = 1
      then Inl \<lparr>error_code = None, error_message = None, status = Some 500,
             statusCode = None, message = Some ''Internal server error''\<rparr>
      else Inr (Some (map (\<lambda>text. [real (length text)]) texts)),
      Suc w)"

text \<open>A provider that always fails.\<close>

definition failing_create :: "string list \<Rightarrow> nat \<Rightarrow> (js_error + vector list option) \<times> nat" where
  "failing_create texts w =
     (Inl \<lparr>error_code = None, error_message = None, status = Some 500,
        statusCode = None, message = Some ''Internal server error''\<rparr>, Suc w)"

definition sample_raw :: "string \<Rightarrow> unit raw_entry" where
  "sample_raw u = \<lparr>raw_uid = Some u, raw_updated_at = Some ''2024-01-01T00:00:00.000Z'',
     raw_metadata_updated_at = None, raw_fields = ()\<rparr>"

definition sample_entry :: "string \<Rightarrow> unit content_entry" where
  "sample_entry u = \<lparr>entry_id = ''blog_post_'' @ u @ ''_en-us'', uid = Some u, title = u,
     snippet = ''No description available'', url = ''https://example.com/blog/'' @ u,
     content_type = ''blog_post'', entry_locale = ''en-us'',
     updated_at = ''2024-01-01T00:00:00.000Z'', tags = [], category = None,
     raw_data = sample_raw u\<rparr>"

text \<open>
  A sample policy: the title is the entry's uid (the manager's default when no title
  field matches), the embedding text is the title, formatting an error yields its
  message followed by its category.
\<close>

fun category_name :: "ErrorCategory \<Rightarrow> string" where
  "category_name AUTHENTICATION = ''AUTHENTICATION''"
| "category_name AUTHORIZATION = ''AUTHORIZATION''"
| "category_name RATE_LIMIT = ''RATE_LIMIT''"
| "category_name TIMEOUT = ''TIMEOUT''"
| "category_name NETWORK = ''NETWORK''"
| "category_name NOT_FOUND = ''NOT_FOUND''"
| "category_name VALIDATION = ''VALIDATION''"
| "category_name SERVER_ERROR = ''SERVER_ERROR''"
| "category_name CLIENT_ERROR = ''CLIENT_ERROR''"
| "category_name UNKNOWN = ''UNKNOWN''"

definition sample_config :: "(nat, unit) config" where
  "sample_config = \<lparr>
     extractTitle = (\<lambda>raw contentType. case raw_uid raw of None \<Rightarrow> ''Untitled'' | Some u \<Rightarrow>
        if u = [] then ''Untitled'' else u),
     extractSnippet = (\<lambda>raw contentType. ''No description available''),
     generateUrl = (\<lambda>raw contentType. ''https://example.com/'' @ contentType @ ''/''
        @ (case raw_uid raw of None \<Rightarrow> ''undefined'' | Some u \<Rightarrow> u)),
     extractTags = (\<lambda>raw contentType. []),
     extractCategory = (\<lambda>raw contentType. None),
     generateEmbeddingText = (\<lambda>e. Inr (title e)),
     formatContentstackError = (\<lambda>error. message_text error @ '' [Category: ''
        @ category_name (categorizeError error) @ '']''),
     JSON_stringify = (\<lambda>error. ''{}''),
     CONTENTSTACK_LOCALES = None,
     openai_maxTokens = 4000,
     now = (\<lambda>w. ''2024-06-01T00:00:00.000Z'')\<rparr>"

definition ten_entries :: "unit content_entry list" where
  "ten_entries = map sample_entry
     [''e0'', ''e1'', ''e2'', ''e3'', ''e4'', ''e5'', ''e6'', ''e7'', ''e8'', ''e9'']"

section \<open>Contentstack service\<close>

subsection \<open>transformEntry\<close>

text \<open>\<open>${uid}\<close> inside the template literal of the id.\<close>

definition uid_text :: "string option \<Rightarrow> string" where
  "uid_text u = (case u of None \<Rightarrow> ''undefined'' | Some s \<Rightarrow> s)"

text \<open>\<open>a || b\<close> where \<open>a\<close> is an optional string and \<open>b\<close> a string.\<close>

definition or_str :: "string option \<Rightarrow> string \<Rightarrow> string" where
  "or_str a b = (case a of None \<Rightarrow> b | Some s \<Rightarrow> if s = [] then b else s)"

text \<open>
  \<open>clock\<close> is what \<open>new Date().toISOString()\<close> yields at the time of the call; it is
  the only input of \<open>transformEntry\<close> besides its three arguments and the policy.
\<close>

definition transformEntry ::
  "('w, 'x) config \<Rightarrow> string \<Rightarrow> 'x raw_entry \<Rightarrow> string \<Rightarrow> string \<Rightarrow> 'x content_entry" where
  "transformEntry cfg clock raw contentType loc =
     \<lparr>entry_id = contentType @ ''_'' @ uid_text (raw_uid raw) @ ''_'' @ loc,
      uid = raw_uid raw,
      title = extractTitle cfg raw contentType,
      snippet = extractSnippet cfg raw contentType,
      url = generateUrl cfg raw contentType,
      content_type = contentType,
      entry_locale = loc,
      updated_at = or_str (raw_updated_at raw) (or_str (raw_metadata_updated_at raw) clock),
      tags = extractTags cfg raw contentType,
      category = extractCategory cfg raw contentType,
      raw_data = raw\<rparr>"

subsection \<open>getAllEntries\<close>

text \<open>
  The \<open>while (hasMore)\<close> loop for one content type and one locale. It returns the
  accumulated entries, the loop's own \<open>batchCount\<close>, whether the pair was recorded as
  failed, and the world. The 200 ms pause between pages is left out.
\<close>

function fetch_pages ::
  "('w, 'x) config \<Rightarrow> ('w, 'x) content_source \<Rightarrow> string \<Rightarrow> string \<Rightarrow> nat \<Rightarrow> nat \<Rightarrow> nat
     \<Rightarrow> 'x content_entry list \<Rightarrow> 'w \<Rightarrow> 'x content_entry list \<times> nat \<times> bool \<times> 'w" where
  "fetch_pages cfg src ctUid loc batchSize skip batchCount allEntries w =
     (case getEntriesByContentType src ctUid loc batchSize skip w of
        (Inl error, w') \<Rightarrow> (allEntries, batchCount + 1, True, w')
      | (Inr result, w') \<Rightarrow>
          if entries result = [] then (allEntries, batchCount + 1, False, w')
          else
            let allEntries' = allEntries
                  @ map (\<lambda>raw. transformEntry cfg (now cfg w') raw ctUid loc) (entries result);
                skip' = skip + batchSize;
                hasMore = (length (entries result) = batchSize \<and> skip' < count result)
            in if batchCount + 1 > 100 then (allEntries', batchCount + 1, False, w')
               else if hasMore
               then fetch_pages cfg src ctUid loc batchSize skip' (batchCount + 1) allEntries' w'
               else (allEntries', batchCount + 1, False, w'))"
  by pat_completeness auto
termination
  by (relation "measure (\<lambda>(cfg, src, ctUid, loc, batchSize, skip, batchCount, allEntries, w).
        100 - batchCount)") auto

declare fetch_pages.simps [simp del]

text \<open>The two \<open>for\<close> loops; \<open>failedContentTypes\<close> collects uid, locale and batch number.\<close>

fun fetch_locales ::
  "('w, 'x) config \<Rightarrow> ('w, 'x) content_source \<Rightarrow> string \<Rightarrow> nat \<Rightarrow> string list
     \<Rightarrow> 'x content_entry list \<Rightarrow> (string \<times> string \<times> nat) list \<Rightarrow> 'w
     \<Rightarrow> 'x content_entry list \<times> (string \<times> string \<times> nat) list \<times> 'w" where
  "fetch_locales cfg src ctUid batchSize [] allEntries failedContentTypes w =
     (allEntries, failedContentTypes, w)"
| "fetch_locales cfg src ctUid batchSize (loc # locs) allEntries failedContentTypes w =
     (case fetch_pages cfg src ctUid loc batchSize 0 0 allEntries w of
        (allEntries', batchCount, failed, w') \<Rightarrow>
          fetch_locales cfg src ctUid batchSize locs allEntries'
            (if failed then failedContentTypes @ [(ctUid, loc, batchCount)]
             else failedContentTypes) w')"

fun fetch_content_types ::
  "('w, 'x) config \<Rightarrow> ('w, 'x) content_source \<Rightarrow> string list \<Rightarrow> nat \<Rightarrow> string list
     \<Rightarrow> 'x content_entry list \<Rightarrow> (string \<times> string \<times> nat) list \<Rightarrow> 'w
     \<Rightarrow> 'x content_entry list \<times> (string \<times> string \<times> nat) list \<times> 'w" where
  "fetch_content_types cfg src locales batchSize [] allEntries failedContentTypes w =
     (allEntries, failedContentTypes, w)"
| "fetch_content_types cfg src locales batchSize (ctUid # cts) allEntries failedContentTypes w =
     (case fetch_locales cfg src ctUid batchSize locales allEntries failedContentTypes w of
        (allEntries', failedContentTypes', w') \<Rightarrow>
          fetch_content_types cfg src locales batchSize cts allEntries' failedContentTypes' w')"

definition getAllEntries ::
  "('w, 'x) config \<Rightarrow> ('w, 'x) content_source \<Rightarrow> string list \<Rightarrow> nat \<Rightarrow> 'w
     \<Rightarrow> (js_error + 'x content_entry list) \<times> 'w" where
  "getAllEntries cfg src locales batchSize w =
     (case getContentTypes src w of
        (Inl error, w') \<Rightarrow>
          (Inl (new_Error (''Contentstack API error: '' @ formatContentstackError cfg error)),
           w')
      | (Inr contentTypes, w') \<Rightarrow>
          (case fetch_content_types cfg src locales batchSize contentTypes [] [] w' of
             (allEntries, failedContentTypes, w'') \<Rightarrow> (Inr allEntries, w'')))"

text \<open>
  A content source wrapped so that the world also records every page request, in order:
  its \<open>skip\<close> argument and what it yielded. The clock of the policy is carried over.
\<close>

type_synonym 'x page_log = "(nat \<times> (js_error + 'x page)) list"

definition logged_source ::
  "('w, 'x) content_source \<Rightarrow> ('w \<times> 'x page_log, 'x) content_source" where
  "logged_source src =
     \<lparr>getContentTypes = (\<lambda>(w, lg). case getContentTypes src w of (r, w') \<Rightarrow> (r, (w', lg))),
      getEntriesByContentType = (\<lambda>ctUid loc limit skip (w, lg).
        case getEntriesByContentType src ctUid loc limit skip w of
          (r, w') \<Rightarrow> (r, (w', lg @ [(skip, r)])))\<rparr>"

text \<open>
  The condition under which the loop asks for a further page after the request at
  \<open>skip\<close> yielded \<open>r\<close>, the ceiling on \<open>batchCount\<close> apart.
\<close>

definition page_continues :: "nat \<Rightarrow> nat \<times> (js_error + 'x page) \<Rightarrow> bool" where
  "page_continues batchSize request =
     (case snd request of
        Inl error \<Rightarrow> False
      | Inr result \<Rightarrow>
          entries result \<noteq> [] \<and> length (entries result) = batchSize
          \<and> fst request + batchSize < count result)"

definition logged_config :: "('w, 'x) config \<Rightarrow> ('w \<times> 'x page_log, 'x) config" where
  "logged_config cfg =
     \<lparr>extractTitle = extractTitle cfg, extractSnippet = extractSnippet cfg,
      generateUrl = generateUrl cfg, extractTags = extractTags cfg,
      extractCategory = extractCategory cfg,
      generateEmbeddingText = generateEmbeddingText cfg,
      formatContentstackError = formatContentstackError cfg,
      JSON_stringify = JSON_stringify cfg,
      CONTENTSTACK_LOCALES = CONTENTSTACK_LOCALES cfg,
      openai_maxTokens = openai_maxTokens cfg,
      now = (\<lambda>(w, lg). now cfg w)\<rparr>"

text \<open>
  A source whose every page is full and reports more records to come; its world counts
  the page requests made.
\<close>

definition endless_source :: "(nat, unit) content_source" where
  "endless_source =
     \<lparr>getContentTypes = (\<lambda>w. (Inr [''blog_post''], w)),
      getEntriesByContentType = (\<lambda>ctUid loc limit skip w.
        (Inr \<lparr>entries = replicate limit (sample_raw ''entry''), count = skip + limit + 1\<rparr>,
         Suc w))\<rparr>"

text \<open>A source with one content type and no entries: every page is empty.\<close>

definition empty_source :: "(nat, unit) content_source" where
  "empty_source =
     \<lparr>getContentTypes = (\<lambda>w. (Inr [''blog_post''], w)),
      getEntriesByContentType = (\<lambda>ctUid loc limit skip w.
        (Inr \<lparr>entries = [], count = 0\<rparr>, Suc w))\<rparr>"

section \<open>Supabase service\<close>

text \<open>
  A row of the store, and the client's \<open>upsert\<close>: the awaited call throws or returns a
  response \<open>{data, error}\<close>.
\<close>

record store_row =
  row_id :: string
  row_title :: string
  row_snippet :: string
  row_url :: string
  row_content_type :: string
  row_locale :: string
  row_updated_at :: string
  row_embedding :: vector

record upsert_response =
  resp_data :: "store_row list option"
  resp_error :: "js_error option"

function batchUpsert_loop ::
  "(store_row list \<Rightarrow> 'w \<Rightarrow> (js_error + upsert_response) \<times> 'w) \<Rightarrow> store_row list \<Rightarrow> nat
     \<Rightarrow> store_row list \<Rightarrow> 'w \<Rightarrow> (js_error + store_row list) \<times> 'w" where
  "batchUpsert_loop upsert rows i results w =
     (if i < length rows then
        (case upsert (take 100 (drop i rows)) w of
           (Inl error, w') \<Rightarrow> (Inl error, w')
         | (Inr response, w') \<Rightarrow>
             (case resp_error response of
                Some error \<Rightarrow> (Inl error, w')
              | None \<Rightarrow>
                  batchUpsert_loop upsert rows (i + 100)
                    (results @ (case resp_data response of None \<Rightarrow> [] | Some d \<Rightarrow> d)) w'))
      else (Inr results, w))"
  by pat_completeness auto
termination
  by (relation "measure (\<lambda>(upsert, rows, i, results, w). length rows - i)") auto

declare batchUpsert_loop.simps [simp del]

definition batchUpsertContentEntries ::
  "(store_row list \<Rightarrow> 'w \<Rightarrow> (js_error + upsert_response) \<times> 'w) \<Rightarrow> store_row list \<Rightarrow> 'w
     \<Rightarrow> (js_error + store_row list) \<times> 'w" where
  "batchUpsertContentEntries upsert rows w = batchUpsert_loop upsert rows 0 [] w"

section \<open>Content sync job (jobs/syncContent.js)\<close>

subsection \<open>State of the job\<close>

record last_error =
  err_message :: "string option"
  err_category :: ErrorCategory
  err_timestamp :: string

record sync_stats =
  totalRuns :: nat
  successfulRuns :: nat
  lastRunStatus :: "string option"
  lastError :: "last_error option"

record job_state =
  isRunning :: bool
  lastSyncTime :: "string option"
  syncStats :: sync_stats

definition initial_job_state :: job_state where
  "initial_job_state =
     \<lparr>isRunning = False, lastSyncTime = None,
      syncStats = \<lparr>totalRuns = 0, successfulRuns = 0, lastRunStatus = None,
                   lastError = None\<rparr>\<rparr>"

subsection \<open>Validation and error classes\<close>

text \<open>
  \<open>validateContentResponse\<close>. Its argument is always an array here, so the test
  \<open>Array.isArray\<close> holds; an entry is always an object. What remains is the check of
  the four required fields on the first five entries.
\<close>

definition has_required_fields :: "'x content_entry \<Rightarrow> bool" where
  "has_required_fields e \<longleftrightarrow>
     entry_id e \<noteq> [] \<and> title e \<noteq> [] \<and> content_type e \<noteq> [] \<and> entry_locale e \<noteq> []"

definition validateContentResponse :: "'x content_entry list \<Rightarrow> bool" where
  "validateContentResponse contentEntries =
     (if contentEntries = [] then True
      else list_all has_required_fields (take (min 5 (length contentEntries)) contentEntries))"

definition recoverablePatterns :: "string list" where
  "recoverablePatterns =
     [''partial'', ''some content types failed'', ''batch failed'', ''connection'', ''timeout'']"

definition isRecoverableError :: "js_error \<Rightarrow> ErrorCategory \<Rightarrow> bool" where
  "isRecoverableError error errorCategory =
     (if errorCategory \<in> set [NETWORK, TIMEOUT, RATE_LIMIT, SERVER_ERROR] then True
      else list_ex (\<lambda>pattern. str_includes (lowered_message error) pattern)
             recoverablePatterns)"

subsection \<open>The fallback strategies\<close>

text \<open>
  \<open>syncSpecificContentTypes\<close>: one page of 50 per content type and locale. The
  \<open>try\<close> encloses the loop over the locales, so a failed request abandons the remaining
  locales of that content type and the loop goes on with the next content type.
\<close>

fun syncSpecific_locales ::
  "('w, 'x) config \<Rightarrow> ('w, 'x) content_source \<Rightarrow> string \<Rightarrow> string list
     \<Rightarrow> 'x content_entry list \<Rightarrow> 'w \<Rightarrow> 'x content_entry list \<times> 'w" where
  "syncSpecific_locales cfg src contentType [] allEntries w = (allEntries, w)"
| "syncSpecific_locales cfg src contentType (loc # locs) allEntries w =
     (case getEntriesByContentType src contentType loc 50 0 w of
        (Inl error, w') \<Rightarrow> (allEntries, w')
      | (Inr result, w') \<Rightarrow>
          syncSpecific_locales cfg src contentType locs
            (if entries result \<noteq> []
             then allEntries
                    @ map (\<lambda>raw. transformEntry cfg (now cfg w') raw contentType loc)
                        (entries result)
             else allEntries) w')"

fun syncSpecific_types ::
  "('w, 'x) config \<Rightarrow> ('w, 'x) content_source \<Rightarrow> string list \<Rightarrow> string list
     \<Rightarrow> 'x content_entry list \<Rightarrow> 'w \<Rightarrow> 'x content_entry list \<times> 'w" where
  "syncSpecific_types cfg src [] locales allEntries w = (allEntries, w)"
| "syncSpecific_types cfg src (contentType # cts) locales allEntries w =
     (case syncSpecific_locales cfg src contentType locales allEntries w of
        (allEntries', w') \<Rightarrow> syncSpecific_types cfg src cts locales allEntries' w')"

definition syncSpecificContentTypes ::
  "('w, 'x) config \<Rightarrow> ('w, 'x) content_source \<Rightarrow> string list \<Rightarrow> string list \<Rightarrow> 'w
     \<Rightarrow> 'x content_entry list \<times> 'w" where
  "syncSpecificContentTypes cfg src contentTypes locales w =
     syncSpecific_types cfg src contentTypes locales [] w"

definition priorityTypes :: "string list" where
  "priorityTypes = [''blog_post'', ''page'', ''article'', ''product'', ''news'']"

definition getCoreContentTypes :: "('w, 'x) content_source \<Rightarrow> 'w \<Rightarrow> string list \<times> 'w" where
  "getCoreContentTypes src w =
     (case getContentTypes src w of
        (Inl error, w') \<Rightarrow> ([''blog_post'', ''page''], w')
      | (Inr allContentTypes, w') \<Rightarrow>
          let coreTypes = filter (\<lambda>ct. ct \<in> set priorityTypes) allContentTypes
          in (if coreTypes = [] then take 3 allContentTypes else coreTypes, w'))"

text \<open>A fetched result is accepted when it validates and is not empty.\<close>

definition accepted :: "'x content_entry list \<Rightarrow> bool" where
  "accepted es \<longleftrightarrow> validateContentResponse es \<and> es \<noteq> []"

definition handlePartialSyncFailure ::
  "('w, 'x) config \<Rightarrow> ('w, 'x) content_source \<Rightarrow> string list \<Rightarrow> 'w
     \<Rightarrow> (js_error + 'x content_entry list) \<times> 'w" where
  "handlePartialSyncFailure cfg src locales w =
     (case getAllEntries cfg src locales 25 w of
        (Inl fallbackError, w1) \<Rightarrow>
          (Inl (new_Error (''Fallback sync failed: '' @ message_text fallbackError)), w1)
      | (Inr smallBatchEntries, w1) \<Rightarrow>
          if accepted smallBatchEntries then (Inr smallBatchEntries, w1)
          else
            (case getAllEntries cfg src [''en-us''] 50 w1 of
               (Inl fallbackError, w2) \<Rightarrow>
                 (Inl (new_Error (''Fallback sync failed: '' @ message_text fallbackError)),
                  w2)
             | (Inr singleLocaleEntries, w2) \<Rightarrow>
                 if accepted singleLocaleEntries then (Inr singleLocaleEntries, w2)
                 else
                   (case getCoreContentTypes src w2 of
                      (coreContentTypes, w3) \<Rightarrow>
                        (case syncSpecificContentTypes cfg src coreContentTypes [''en-us''] w3
                         of (coreEntries, w4) \<Rightarrow>
                              if accepted coreEntries then (Inr coreEntries, w4)
                              else (Inr [], w4)))))"

text \<open>
  A content source wrapped so that the world also records the arguments of every page
  request, in order: content type, locale, limit and skip.
\<close>

type_synonym page_request = "string \<times> string \<times> nat \<times> nat"

definition traced_source ::
  "('w, 'x) content_source \<Rightarrow> ('w \<times> page_request list, 'x) content_source" where
  "traced_source src =
     \<lparr>getContentTypes = (\<lambda>(w, tr). case getContentTypes src w of (r, w') \<Rightarrow> (r, (w', tr))),
      getEntriesByContentType = (\<lambda>ctUid loc limit skip (w, tr).
        case getEntriesByContentType src ctUid loc limit skip w of
          (r, w') \<Rightarrow> (r, (w', tr @ [(ctUid, loc, limit, skip)])))\<rparr>"

definition traced_config :: "('w, 'x) config \<Rightarrow> ('w \<times> page_request list, 'x) config" where
  "traced_config cfg =
     \<lparr>extractTitle = extractTitle cfg, extractSnippet = extractSnippet cfg,
      generateUrl = generateUrl cfg, extractTags = extractTags cfg,
      extractCategory = extractCategory cfg,
      generateEmbeddingText = generateEmbeddingText cfg,
      formatContentstackError = formatContentstackError cfg,
      JSON_stringify = JSON_stringify cfg,
      CONTENTSTACK_LOCALES = CONTENTSTACK_LOCALES cfg,
      openai_maxTokens = openai_maxTokens cfg,
      now = (\<lambda>(w, tr). now cfg w)\<rparr>"

subsection \<open>The three phases of a run\<close>

text \<open>The \<open>catch\<close> block of \<open>fetchContentFromContentstack\<close>.\<close>

definition fetch_catch ::
  "('w, 'x) config \<Rightarrow> ('w, 'x) content_source \<Rightarrow> js_error \<Rightarrow> 'w
     \<Rightarrow> (js_error + 'x content_entry list) \<times> 'w" where
  "fetch_catch cfg src error w =
     (if isRecoverableError error (categorizeError error) then
        (case handlePartialSyncFailure cfg src [''en-us''] w of
           (Inr es, w') \<Rightarrow> (Inr es, w')
         | (Inl fallbackError, w') \<Rightarrow>
             (Inl (new_Error (''Content sync failed: '' @ message_text error
                     @ ''. Fallback also failed: '' @ message_text fallbackError)), w'))
      else (Inl (new_Error (''Content sync failed: '' @ message_text error)), w))"

definition configured_locales :: "('w, 'x) config \<Rightarrow> string list" where
  "configured_locales cfg =
     (case CONTENTSTACK_LOCALES cfg of None \<Rightarrow> [''en-us''] | Some ls \<Rightarrow> ls)"

definition fetchContentFromContentstack ::
  "('w, 'x) config \<Rightarrow> ('w, 'x) content_source \<Rightarrow> 'w
     \<Rightarrow> (js_error + 'x content_entry list) \<times> 'w" where
  "fetchContentFromContentstack cfg src w =
     (let locales = configured_locales cfg in
      case getAllEntries cfg src locales 50 w of
        (Inl error, w1) \<Rightarrow> fetch_catch cfg src error w1
      | (Inr contentEntries, w1) \<Rightarrow>
          if \<not> validateContentResponse contentEntries then
            (case handlePartialSyncFailure cfg src locales w1 of
               (Inr es, w2) \<Rightarrow> (Inr es, w2)
             | (Inl error, w2) \<Rightarrow> fetch_catch cfg src error w2)
          else (Inr contentEntries, w1))"

definition processEntriesWithEmbeddings ::
  "('w, 'x) config \<Rightarrow> (string list \<Rightarrow> 'w \<Rightarrow> (js_error + vector list option) \<times> 'w)
     \<Rightarrow> 'x content_entry list \<Rightarrow> 'w
     \<Rightarrow> ((js_error + 'x processed_entry list) \<times> 'w) option" where
  "processEntriesWithEmbeddings cfg create es w =
     (if \<not> validateContentResponse es then
        Some (Inl (new_Error (''Embedding generation failed: ''
                     @ ''Invalid entries provided for embedding processing'')), w)
      else
        (case processContentEntries cfg create es w of
           None \<Rightarrow> None
         | Some (Inl error, w') \<Rightarrow>
             Some (Inl (new_Error (''Embedding generation failed: ''
                          @ message_or_json cfg error)), w')
         | Some (Inr processedEntries, w') \<Rightarrow> Some (Inr processedEntries, w')))"

text \<open>\<open>syncToSupabase\<close>: validation of the processed entries, then the batch upsert.\<close>

fun slot_vector :: "embedding_slot \<Rightarrow> vector option" where
  "slot_vector (Vec v) = Some v"
| "slot_vector Null = None"
| "slot_vector Undefined = None"

definition supabase_row :: "('w, 'x) config \<Rightarrow> 'w \<Rightarrow> 'x processed_entry \<Rightarrow> store_row option" where
  "supabase_row cfg w p =
     (let e = entry_of p in
      case slot_vector (embedding p) of
        None \<Rightarrow> None
      | Some v \<Rightarrow>
          if entry_id e = [] \<or> title e = [] \<or> content_type e = [] then None
          else Some \<lparr>row_id = entry_id e, row_title = title e, row_snippet = snippet e,
                 row_url = url e, row_content_type = content_type e,
                 row_locale = (if entry_locale e = [] then ''en-us'' else entry_locale e),
                 row_updated_at = (if updated_at e = [] then now cfg w else updated_at e),
                 row_embedding = v\<rparr>)"

datatype sync_result = NothingToSync | Upserted "store_row list"

definition syncToSupabase ::
  "('w, 'x) config \<Rightarrow> (store_row list \<Rightarrow> 'w \<Rightarrow> (js_error + upsert_response) \<times> 'w)
     \<Rightarrow> 'x processed_entry list \<Rightarrow> 'w \<Rightarrow> (js_error + sync_result) \<times> 'w" where
  "syncToSupabase cfg upsert processedEntries w =
     (if processedEntries = [] then (Inr NothingToSync, w)
      else
        let supabaseEntries = List.map_filter (supabase_row cfg w) processedEntries in
        if supabaseEntries = [] then
          (Inl (new_Error (''Supabase sync failed: ''
                  @ ''No valid entries to sync after validation'')), w)
        else
          (case batchUpsertContentEntries upsert supabaseEntries w of
             (Inl error, w') \<Rightarrow>
               (Inl (new_Error (''Supabase sync failed: '' @ message_or_json cfg error)), w')
           | (Inr result, w') \<Rightarrow> (Inr (Upserted result), w')))"

subsection \<open>run\<close>

definition set_status :: "string \<Rightarrow> job_state \<Rightarrow> job_state" where
  "set_status s st = st\<lparr>syncStats := (syncStats st)\<lparr>lastRunStatus := Some s\<rparr>\<rparr>"

text \<open>The \<open>catch\<close> block of \<open>run\<close> followed by its \<open>finally\<close>: the error is re-thrown.\<close>

definition run_failed ::
  "('w, 'x) config \<Rightarrow> js_error \<Rightarrow> job_state \<Rightarrow> 'w \<Rightarrow> (js_error + unit) \<times> job_state \<times> 'w" where
  "run_failed cfg error st w =
     (Inl error,
      st\<lparr>isRunning := False,
         syncStats := (syncStats st)
           \<lparr>lastRunStatus := Some ''error'',
            lastError := Some \<lparr>err_message = message error,
                               err_category = categorizeError error,
                               err_timestamp = now cfg w\<rparr>\<rparr>\<rparr>,
      w)"

text \<open>
  \<open>run\<close> on the job state and the world. The result is \<open>None\<close> only if the embedding
  phase does not return.
\<close>

definition run ::
  "('w, 'x) config \<Rightarrow> ('w, 'x) content_source
     \<Rightarrow> (string list \<Rightarrow> 'w \<Rightarrow> (js_error + vector list option) \<times> 'w)
     \<Rightarrow> (store_row list \<Rightarrow> 'w \<Rightarrow> (js_error + upsert_response) \<times> 'w)
     \<Rightarrow> job_state \<Rightarrow> 'w \<Rightarrow> ((js_error + unit) \<times> job_state \<times> 'w) option" where
  "run cfg src create upsert st w =
     (if isRunning st then Some (Inr (), st, w)
      else
        let st1 = st\<lparr>isRunning := True\<rparr>;
            st2 = st1\<lparr>syncStats := (syncStats st1)\<lparr>totalRuns := totalRuns (syncStats st1) + 1\<rparr>\<rparr>
        in case fetchContentFromContentstack cfg src w of
             (Inl error, w1) \<Rightarrow> Some (run_failed cfg error st2 w1)
           | (Inr contentEntries, w1) \<Rightarrow>
               if contentEntries = [] then
                 Some (Inr (), (set_status ''no_content'' st2)\<lparr>isRunning := False\<rparr>, w1)
               else
                 (case processEntriesWithEmbeddings cfg create contentEntries w1 of
                    None \<Rightarrow> None
                  | Some (Inl error, w2) \<Rightarrow> Some (run_failed cfg error st2 w2)
                  | Some (Inr processedEntries, w2) \<Rightarrow>
                      if processedEntries = [] then
                        Some (Inr (), (set_status ''no_embeddings'' st2)\<lparr>isRunning := False\<rparr>,
                              w2)
                      else
                        (case syncToSupabase cfg upsert processedEntries w2 of
                           (Inl error, w3) \<Rightarrow> Some (run_failed cfg error st2 w3)
                         | (Inr result, w3) \<Rightarrow>
                             Some (Inr (),
                               st2\<lparr>isRunning := False,
                                   lastSyncTime := Some (now cfg w3),
                                   syncStats := (syncStats st2)
                                     \<lparr>successfulRuns := successfulRuns (syncStats st2) + 1,
                                      lastRunStatus := Some ''success'',
                                      lastError := None\<rparr>\<rparr>,
                               w3))))"

subsection \<open>Sample store and sample sources for the job\<close>

text \<open>A store client that accepts every batch; each call moves the world on by 1000.\<close>

definition sample_upsert ::
  "store_row list \<Rightarrow> nat \<Rightarrow> (js_error + upsert_response) \<times> nat" where
  "sample_upsert rows w = (Inr \<lparr>resp_data = Some rows, resp_error = None\<rparr>, w + 1000)"

text \<open>
  The variable \<open>CONTENTSTACK_LOCALES\<close> set to \<open>"en-us,"\<close>, and set to \<open>","\<close> cut down
  to one element: splitting and trimming leave an empty locale.
\<close>

definition trailing_comma_config :: "(nat, unit) config" where
  "trailing_comma_config = sample_config\<lparr>CONTENTSTACK_LOCALES := Some [''en-us'', '''']\<rparr>"

definition blank_locale_config :: "(nat, unit) config" where
  "blank_locale_config = sample_config\<lparr>CONTENTSTACK_LOCALES := Some ['''']\<rparr>"

text \<open>
  A source that goes down after the first fetch. Its world counts the
  \<open>getContentTypes\<close> calls: the first call is answered and every later one fails with
  the error the service raises for HTTP status 401; a page request returns the one
  entry there is while exactly one \<open>getContentTypes\<close> call has been made, and fails
  afterwards.
\<close>

definition rejected_message :: string where
  "rejected_message = ''Contentstack API error: Authentication failed - check API key ''
     @ ''and delivery token (Status: 401) [Category: AUTHENTICATION]''"

definition outage_source :: "(nat, unit) content_source" where
  "outage_source =
     \<lparr>getContentTypes = (\<lambda>w. (if w = 0 then Inr [''blog_post'']
                                else Inl (new_Error rejected_message), Suc w)),
      getEntriesByContentType = (\<lambda>ctUid loc limit skip w.
        (if w = 1 then Inr \<lparr>entries = [sample_raw ''e1''], count = 1\<rparr>
         else Inl (new_Error rejected_message), w))\<rparr>"

definition outage_primary :: "unit content_entry list" where
  "outage_primary =
     [transformEntry trailing_comma_config ''2024-06-01T00:00:00.000Z'' (sample_raw ''e1'')
        ''blog_post'' ''en-us'',
      transformEntry trailing_comma_config ''2024-06-01T00:00:00.000Z'' (sample_raw ''e1'')
        ''blog_post'' []]"

definition outage_failure :: js_error where
  "outage_failure = new_Error
     (''Content sync failed: Fallback sync failed: Contentstack API error: ''
      @ rejected_message @ '' [Category: AUTHENTICATION]'')"

text \<open>
  A source that has one entry under the empty locale and none under any other. Its
  world counts the page requests.
\<close>

definition blank_locale_source :: "(nat, unit) content_source" where
  "blank_locale_source =
     \<lparr>getContentTypes = (\<lambda>w. (Inr [''blog_post''], w)),
      getEntriesByContentType = (\<lambda>ctUid loc limit skip w.
        (Inr (if loc = [] then \<lparr>entries = [sample_raw ''e1''], count = 1\<rparr>
              else \<lparr>entries = [], count = 0\<rparr>), Suc w))\<rparr>"

definition blank_entry :: "unit content_entry" where
  "blank_entry = transformEntry blank_locale_config ''2024-06-01T00:00:00.000Z''
     (sample_raw ''e1'') ''blog_post'' []"

section \<open>Properties of the retry engine\<close>

lemma state_after_shift:
  "state_after operation s (Suc k) = state_after operation (snd (operation s)) k"
  by (induction k) simp_all

lemma outcome_shift:
  "outcome operation s (Suc k) = outcome operation (snd (operation s)) k"
  unfolding outcome_def state_after_shift ..

text \<open>Counting the invocations does not change what the loop computes.\<close>

lemma withRetry_loop_counted:
  "withRetry_loop (counted operation) maxRetries shouldRetry attempt le (s, n) = (r, (s', n'))
   \<Longrightarrow> withRetry_loop operation maxRetries shouldRetry attempt le s = (r, s')"
proof (induction "maxRetries + 2 - attempt" arbitrary: attempt le s n)
  case 0
  then show ?case by simp
next
  case (Suc d)
  obtain x t where op: "operation s = (x, t)" by (cases "operation s")
  show ?case
  proof (cases "attempt \<le> maxRetries + 1")
    case False
    with Suc.prems show ?thesis by simp
  next
    case True
    show ?thesis
    proof (cases x)
      case (Inr v)
      with Suc.prems op True show ?thesis by (simp add: counted_def)
    next
      case (Inl e)
      show ?thesis
      proof (cases "attempt > maxRetries \<or> \<not> shouldRetry e")
        case True
        with Suc.prems op Inl \<open>attempt \<le> maxRetries + 1\<close> show ?thesis
          by (auto simp: counted_def)
      next
        case False
        have "withRetry_loop (counted operation) maxRetries shouldRetry (attempt + 1)
                (Some e) (t, n + 1) = (r, (s', n'))"
          using Suc.prems op Inl False True by (simp add: counted_def)
        then have "withRetry_loop operation maxRetries shouldRetry (attempt + 1) (Some e) t
                = (r, s')"
          using Suc.hyps(1)[of "attempt + 1" "Some e" t "n + 1"] Suc.hyps(2) by simp
        then show ?thesis using op Inl False True by simp
      qed
    qed
  qed
qed

text \<open>
  While the outcomes are retryable failures and attempts remain, the loop moves on: after
  \<open>j\<close> such failures it stands at attempt \<open>attempt + j\<close>, having invoked the operation
  \<open>j\<close> times.
\<close>

lemma withRetry_loop_skip:
  assumes "\<forall>k<j. \<exists>e. outcome operation s k = Inl e \<and> shouldRetry e"
    and "attempt + j \<le> maxRetries + 1"
  shows "\<exists>le'. withRetry_loop (counted operation) maxRetries shouldRetry attempt le (s, n)
       = withRetry_loop (counted operation) maxRetries shouldRetry (attempt + j) le'
           (state_after operation s j, n + j)"
  using assms
proof (induction j arbitrary: attempt le s n)
  case 0
  then show ?case by auto
next
  case (Suc j)
  from Suc.prems(1) obtain e where e: "outcome operation s 0 = Inl e" "shouldRetry e"
    by auto
  obtain s' where s': "operation s = (Inl e, s')"
    using e(1) by (cases "operation s") (simp add: outcome_def)
  have later: "\<forall>k<j. \<exists>e. outcome operation s' k = Inl e \<and> shouldRetry e"
  proof (intro allI impI)
    fix k assume "k < j"
    then have "Suc k < Suc j" by simp
    with Suc.prems(1) obtain e'
      where "outcome operation s (Suc k) = Inl e' \<and> shouldRetry e'" by blast
    then show "\<exists>e. outcome operation s' k = Inl e \<and> shouldRetry e"
      using s' by (auto simp: outcome_shift)
  qed
  have step: "withRetry_loop (counted operation) maxRetries shouldRetry attempt le (s, n)
      = withRetry_loop (counted operation) maxRetries shouldRetry (attempt + 1) (Some e)
          (s', n + 1)"
    using Suc.prems(2) e(2) s' by (simp add: counted_def)
  from Suc.IH[OF later, of "attempt + 1" "Some e" "n + 1"] Suc.prems(2)
  obtain le' where
    "withRetry_loop (counted operation) maxRetries shouldRetry (attempt + 1) (Some e)
       (s', n + 1)
     = withRetry_loop (counted operation) maxRetries shouldRetry (attempt + 1 + j) le'
         (state_after operation s' j, n + 1 + j)"
    by auto
  with step s' show ?case
    by (auto simp: state_after_shift simp del: withRetry_loop.simps state_after.simps)
qed

lemma withRetry_loop_calls:
  "snd (snd (withRetry_loop (counted operation) maxRetries shouldRetry attempt le (s, n)))
     \<le> n + (maxRetries + 2 - attempt)"
proof (induction "maxRetries + 2 - attempt" arbitrary: attempt le s n)
  case 0
  then show ?case by simp
next
  case (Suc d)
  obtain x t where op: "operation s = (x, t)" by (cases "operation s")
  show ?case
  proof (cases x)
    case (Inr v)
    then show ?thesis using op Suc.hyps(2) by (auto simp: counted_def)
  next
    case (Inl e)
    show ?thesis
    proof (cases "attempt > maxRetries \<or> \<not> shouldRetry e")
      case True
      then show ?thesis using op Inl Suc.hyps(2) by (auto simp: counted_def)
    next
      case False
      have "snd (snd (withRetry_loop (counted operation) maxRetries shouldRetry (attempt + 1)
                  (Some e) (t, n + 1)))
          \<le> n + 1 + (maxRetries + 2 - (attempt + 1))"
        using Suc.hyps(1)[of "attempt + 1" "Some e" t "n + 1"] Suc.hyps(2) by simp
      then show ?thesis using op Inl False Suc.hyps(2) by (simp add: counted_def)
    qed
  qed
qed

text \<open>Whatever the loop throws is the error of the last invocation it made.\<close>

lemma withRetry_loop_throws_last:
  assumes "withRetry_loop (counted operation) maxRetries shouldRetry attempt le (s, n)
             = (Inl x, (s', n'))"
    and "attempt \<le> maxRetries + 1"
  shows "n < n' \<and> (\<exists>e. x = Some e \<and> outcome operation s (n' - n - 1) = Inl e)"
  using assms
proof (induction "maxRetries + 2 - attempt" arbitrary: attempt le s n)
  case 0
  then show ?case by simp
next
  case (Suc d)
  obtain y t where op: "operation s = (y, t)" by (cases "operation s")
  show ?case
  proof (cases y)
    case (Inr v)
    with Suc.prems op show ?thesis by (simp add: counted_def)
  next
    case (Inl e)
    show ?thesis
    proof (cases "attempt > maxRetries \<or> \<not> shouldRetry e")
      case True
      with Suc.prems op Inl show ?thesis
        by (auto simp: counted_def outcome_def)
    next
      case False
      have rec: "withRetry_loop (counted operation) maxRetries shouldRetry (attempt + 1)
                (Some e) (t, n + 1) = (Inl x, (s', n'))"
        using Suc.prems op Inl False by (simp add: counted_def)
      have "n + 1 < n' \<and> (\<exists>e. x = Some e \<and> outcome operation t (n' - (n + 1) - 1) = Inl e)"
        using Suc.hyps(1)[of "attempt + 1" "Some e" t "n + 1", OF _ rec] Suc.hyps(2) False
        by simp
      then obtain e' where lt: "n + 1 < n'" and x: "x = Some e'"
        and out: "outcome operation t (n' - (n + 1) - 1) = Inl e'" by blast
      from lt have idx: "n' - n - 1 = Suc (n' - (n + 1) - 1)" by simp
      have "outcome operation s (n' - n - 1) = Inl e'"
        unfolding idx outcome_shift using op out by simp
      with lt x show ?thesis by simp
    qed
  qed
qed

lemma retryable_timeout_error: "isRetryableError timeout_error"
  by (simp add: isRetryableError_def categorizeError_def categorize_by_status_def
      categorize_by_message_def lowered_message_def toLowerCase_def lower_char_def
      or_num_def timeout_error_def)

lemma not_retryable_unauthorized_error: "\<not> isRetryableError unauthorized_error"
  by (simp add: isRetryableError_def categorizeError_def categorize_by_status_def
      categorize_by_message_def lowered_message_def toLowerCase_def lower_char_def
      or_num_def unauthorized_error_def retryable_status_def transient_message_def transientMessages_def)

text \<open>
  Claim C1. For every operation and every \<open>maxRetries\<close>, \<open>withRetry\<close> invokes the
  operation at most \<open>maxRetries + 1\<close> times. If the first \<open>maxRetries\<close> invocations fail
  with retryable errors and the next one succeeds, that value is returned after exactly
  \<open>maxRetries + 1\<close> invocations. If the operation always fails with an error that
  \<open>shouldRetry\<close> rejects, it is invoked exactly once and that error is thrown. If the
  first \<open>maxRetries\<close> invocations fail with retryable errors and the next one fails too,
  its error is thrown after \<open>maxRetries + 1\<close> invocations. In every case the value thrown
  is the error of the last invocation, unchanged. The second component of the final
  state is the number of invocations made.
\<close>

theorem withRetry_attempts:
  fixes operation :: "'s \<Rightarrow> ('e + 'a) \<times> 's"
  shows
  "snd (snd (withRetry (counted operation) maxRetries shouldRetry (s, 0))) \<le> maxRetries + 1
   \<and> ((\<forall>k<maxRetries. \<exists>e. outcome operation s k = Inl e \<and> shouldRetry e)
        \<and> outcome operation s maxRetries = Inr v
      \<longrightarrow> withRetry (counted operation) maxRetries shouldRetry (s, 0)
            = (Inr v, (state_after operation s (maxRetries + 1), maxRetries + 1)))
   \<and> ((\<forall>k. \<exists>e. outcome operation s k = Inl e \<and> \<not> shouldRetry e)
      \<longrightarrow> (\<exists>e. outcome operation s 0 = Inl e
            \<and> withRetry (counted operation) maxRetries shouldRetry (s, 0)
                = (Inl (Some e), (state_after operation s 1, 1))))
   \<and> ((\<forall>k<maxRetries. \<exists>e. outcome operation s k = Inl e \<and> shouldRetry e)
        \<and> outcome operation s maxRetries = Inl err
      \<longrightarrow> withRetry (counted operation) maxRetries shouldRetry (s, 0)
            = (Inl (Some err), (state_after operation s (maxRetries + 1), maxRetries + 1)))
   \<and> (\<forall>x s' n. withRetry (counted operation) maxRetries shouldRetry (s, 0) = (Inl x, (s', n))
      \<longrightarrow> 0 < n \<and> (\<exists>e. x = Some e \<and> outcome operation s (n - 1) = Inl e))"
proof (intro conjI impI allI)
  show "snd (snd (withRetry (counted operation) maxRetries shouldRetry (s, 0))) \<le> maxRetries + 1"
    using withRetry_loop_calls[of operation maxRetries shouldRetry 1 None s 0]
    by (simp add: withRetry_def)
next
  assume h: "(\<forall>k<maxRetries. \<exists>e. outcome operation s k = Inl e \<and> shouldRetry e)
        \<and> outcome operation s maxRetries = Inr v"
  then obtain le' where skip:
    "withRetry_loop (counted operation) maxRetries shouldRetry 1 None (s, 0)
       = withRetry_loop (counted operation) maxRetries shouldRetry (1 + maxRetries) le'
           (state_after operation s maxRetries, 0 + maxRetries)"
    using withRetry_loop_skip[of maxRetries operation s shouldRetry 1 maxRetries None 0]
    by auto
  obtain t where t: "operation (state_after operation s maxRetries) = (Inr v, t)"
    using h by (cases "operation (state_after operation s maxRetries)") (simp add: outcome_def)
  show "withRetry (counted operation) maxRetries shouldRetry (s, 0)
            = (Inr v, (state_after operation s (maxRetries + 1), maxRetries + 1))"
    unfolding withRetry_def skip using t by (simp add: counted_def)
next
  assume h: "\<forall>k. \<exists>e. outcome operation s k = Inl e \<and> \<not> shouldRetry e"
  then obtain e where e: "outcome operation s 0 = Inl e" "\<not> shouldRetry e" by blast
  obtain t where t: "operation s = (Inl e, t)"
    using e(1) by (cases "operation s") (simp add: outcome_def)
  have "withRetry (counted operation) maxRetries shouldRetry (s, 0)
                = (Inl (Some e), (state_after operation s 1, 1))"
    using t e(2) by (simp add: withRetry_def counted_def)
  with e(1) show "\<exists>e. outcome operation s 0 = Inl e
            \<and> withRetry (counted operation) maxRetries shouldRetry (s, 0)
                = (Inl (Some e), (state_after operation s 1, 1))" by blast
next
  assume h: "(\<forall>k<maxRetries. \<exists>e. outcome operation s k = Inl e \<and> shouldRetry e)
        \<and> outcome operation s maxRetries = Inl err"
  then obtain le' where skip:
    "withRetry_loop (counted operation) maxRetries shouldRetry 1 None (s, 0)
       = withRetry_loop (counted operation) maxRetries shouldRetry (1 + maxRetries) le'
           (state_after operation s maxRetries, 0 + maxRetries)"
    using withRetry_loop_skip[of maxRetries operation s shouldRetry 1 maxRetries None 0]
    by auto
  obtain t where t: "operation (state_after operation s maxRetries) = (Inl err, t)"
    using h by (cases "operation (state_after operation s maxRetries)") (simp add: outcome_def)
  show "withRetry (counted operation) maxRetries shouldRetry (s, 0)
            = (Inl (Some err), (state_after operation s (maxRetries + 1), maxRetries + 1))"
    unfolding withRetry_def skip using t by (simp add: counted_def)
next
  fix x s' n
  assume "withRetry (counted operation) maxRetries shouldRetry (s, 0) = (Inl x, (s', n))"
  then show "0 < n" and "\<exists>e. x = Some e \<and> outcome operation s (n - 1) = Inl e"
    using withRetry_loop_throws_last[of operation maxRetries shouldRetry 1 None s 0 x s' n]
    by (simp_all add: withRetry_def)
qed

lemma state_after_flaky: "state_after flaky_operation 0 k = k"
  by (induction k) (simp_all add: flaky_operation_def)
lemma state_after_rejected: "state_after rejected_operation 0 k = k"
  by (induction k) (simp_all add: rejected_operation_def)
lemma state_after_failing: "state_after failing_operation 0 k = k"
  by (induction k) (simp_all add: failing_operation_def)


theorem withRetry_attempts_witness:
  "withRetry (counted flaky_operation) 2 isRetryableError (0, 0) = (Inr ''success'', (3, 3))
   \<and> withRetry (counted rejected_operation) 3 isRetryableError (0, 0)
       = (Inl (Some unauthorized_error), (1, 1))
   \<and> withRetry (counted failing_operation) 3 isRetryableError (0, 0)
       = (Inl (Some timeout_error), (4, 4))"
proof (intro conjI)
  have h: "(\<forall>k<2. \<exists>e. outcome flaky_operation 0 k = Inl e \<and> isRetryableError e)
      \<and> outcome flaky_operation 0 2 = Inr ''success''"
    by (auto simp: outcome_def state_after_flaky flaky_operation_def retryable_timeout_error)
  from withRetry_attempts[of flaky_operation 2 isRetryableError 0 "''success''"]
  have "(\<forall>k<2. \<exists>e. outcome flaky_operation 0 k = Inl e \<and> isRetryableError e)
        \<and> outcome flaky_operation 0 2 = Inr ''success''
      \<longrightarrow> withRetry (counted flaky_operation) 2 isRetryableError (0, 0)
            = (Inr ''success'', (state_after flaky_operation 0 (2 + 1), 2 + 1))"
    by blast
  with h show "withRetry (counted flaky_operation) 2 isRetryableError (0, 0)
      = (Inr ''success'', (3, 3))"
    by (simp add: state_after_flaky)
next
  have h: "\<forall>k. \<exists>e. outcome rejected_operation 0 k = Inl e \<and> \<not> isRetryableError e"
    by (simp add: outcome_def rejected_operation_def not_retryable_unauthorized_error)
  from withRetry_attempts[of rejected_operation 3 isRetryableError 0]
  have "(\<forall>k. \<exists>e. outcome rejected_operation 0 k = Inl e \<and> \<not> isRetryableError e)
      \<longrightarrow> (\<exists>e. outcome rejected_operation 0 0 = Inl e
            \<and> withRetry (counted rejected_operation) 3 isRetryableError (0, 0)
                = (Inl (Some e), (state_after rejected_operation 0 1, 1)))"
    by blast
  with h obtain e where "outcome rejected_operation 0 0 = Inl e"
    and "withRetry (counted rejected_operation) 3 isRetryableError (0, 0)
                = (Inl (Some e), (state_after rejected_operation 0 1, 1))"
    by blast
  then show "withRetry (counted rejected_operation) 3 isRetryableError (0, 0)
       = (Inl (Some unauthorized_error), (1, 1))"
    by (simp add: outcome_def rejected_operation_def)
next
  have h: "(\<forall>k<3. \<exists>e. outcome failing_operation 0 k = Inl e \<and> isRetryableError e)
      \<and> outcome failing_operation 0 3 = Inl timeout_error"
    by (simp add: outcome_def failing_operation_def retryable_timeout_error)
  from withRetry_attempts[of failing_operation 3 isRetryableError 0 _ timeout_error]
  have "(\<forall>k<3. \<exists>e. outcome failing_operation 0 k = Inl e \<and> isRetryableError e)
        \<and> outcome failing_operation 0 3 = Inl timeout_error
      \<longrightarrow> withRetry (counted failing_operation) 3 isRetryableError (0, 0)
            = (Inl (Some timeout_error), (state_after failing_operation 0 (3 + 1), 3 + 1))"
    by blast
  with h show "withRetry (counted failing_operation) 3 isRetryableError (0, 0)
       = (Inl (Some timeout_error), (4, 4))"
    by (simp add: state_after_failing)
qed

section \<open>Properties of the error classifier\<close>

lemmas classifier_defs =
  isRetryableError_def categorizeError_def categorize_by_status_def
  categorize_by_message_def lowered_message_def toLowerCase_def lower_char_def
  or_num_def retryable_status_def transient_message_def transientMessages_def




section \<open>Properties of the embeddings service\<close>

subsection \<open>Truncation\<close>

lemma lastIndexOf_range: "- 1 \<le> lastIndexOf xs c \<and> lastIndexOf xs c < int (length xs)"
  by (induction xs) (auto simp: Let_def)

lemma lastIndexOf_found:
  "0 \<le> lastIndexOf xs c \<Longrightarrow>
     xs ! nat (lastIndexOf xs c) = c
     \<and> (\<forall>j. nat (lastIndexOf xs c) < j \<and> j < length xs \<longrightarrow> xs ! j \<noteq> c)"
proof (induction xs)
  case Nil
  then show ?case by simp
next
  case (Cons x xs)
  show ?case
  proof (cases "0 \<le> lastIndexOf xs c")
    case True
    with Cons.IH have ih: "xs ! nat (lastIndexOf xs c) = c"
      "\<And>j. nat (lastIndexOf xs c) < j \<Longrightarrow> j < length xs \<Longrightarrow> xs ! j \<noteq> c" by auto
    from True have eq: "lastIndexOf (x # xs) c = lastIndexOf xs c + 1" by (simp add: Let_def)
    have n: "nat (lastIndexOf xs c + 1) = Suc (nat (lastIndexOf xs c))" using True by simp
    show ?thesis unfolding eq n using ih by (auto simp: nth_Cons split: nat.splits)
  next
    case False
    with Cons.prems have x: "x = c" and eq: "lastIndexOf (x # xs) c = 0"
      by (auto simp: Let_def split: if_splits)
    from False have none: "c \<notin> set xs"
    proof (induction xs)
      case Nil then show ?case by simp
    next
      case (Cons y ys) then show ?case by (auto simp: Let_def split: if_splits)
    qed
    show ?thesis unfolding eq using x none by (auto simp: nth_Cons split: nat.splits)
  qed
qed

lemma lastIndexOf_absent: "lastIndexOf xs c < 0 \<Longrightarrow> c \<notin> set xs"
  by (induction xs) (auto simp: Let_def split: if_splits)

lemma truncateText_long:
  assumes long: "maxTokens * 4 < length text"
  defines "M \<equiv> maxTokens * 4"
  defines "l \<equiv> lastIndexOf (take M text) CHR '' ''"
  shows "truncateText text maxTokens
          = (if 5 * l > 4 * int M then take (nat l) text else take M text) @ ''...''"
proof -
  have ne: "text \<noteq> []" using long by auto
  have "l < int M" using lastIndexOf_range[of "take M text" "CHR '' ''"] long
    by (simp add: l_def M_def)
  then have "take (nat l) (take M text) = take (nat l) text"
    by (simp add: min_def)
  then show ?thesis using long ne
    by (simp add: truncateText_def Let_def M_def l_def)
qed

text \<open>
  Claim C9 as stated fails. With a budget of one token (four characters) the text
  "aaaaa" comes back as "aaaa..." of length seven; and with a budget of two tokens the
  text "ab cdefghijkl" is cut after "ab cdefg", in the middle of a word, because its last
  space lies in the first four fifths of the limit.
\<close>

theorem truncateText_counterexample:
  "\<not> length (truncateText ''aaaaa'' 1) \<le> 1 * 4
   \<and> truncateText ''aaaaa'' 1 = ''aaaa...''
   \<and> truncateText ''ab cdefghijkl'' 2 = ''ab cdefg...''"
  by (simp add: truncateText_def Let_def)


text \<open>
  Claim C9, amended. A text of at most \<open>maxTokens \<times> 4\<close> characters is returned
  unchanged. A longer text is returned as a prefix of it of at most \<open>maxTokens \<times> 4\<close>
  characters followed by the three-character marker "...": the prefix ends just before
  the last space among the first \<open>maxTokens \<times> 4\<close> characters when the index of that space
  is greater than four fifths of the limit, and otherwise is exactly the first
  \<open>maxTokens \<times> 4\<close> characters. The result is at most \<open>maxTokens \<times> 4 + 3\<close> characters
  long.
\<close>

theorem truncateText_amended:
  "(length text \<le> maxTokens * 4 \<longrightarrow> truncateText text maxTokens = text)
   \<and> (maxTokens * 4 < length text \<longrightarrow>
        (\<exists>kept. truncateText text maxTokens = kept @ ''...''
           \<and> kept = take (length kept) text
           \<and> length kept \<le> maxTokens * 4
           \<and> (length kept = maxTokens * 4
                \<and> (\<forall>j. j < maxTokens * 4 \<and> 4 * (maxTokens * 4) < 5 * j
                      \<longrightarrow> text ! j \<noteq> CHR '' '')
              \<or> 4 * (maxTokens * 4) < 5 * length kept
                \<and> length kept < maxTokens * 4
                \<and> text ! length kept = CHR '' ''
                \<and> (\<forall>j. length kept < j \<and> j < maxTokens * 4 \<longrightarrow> text ! j \<noteq> CHR '' ''))))
   \<and> length (truncateText text maxTokens) \<le> maxTokens * 4 + 3"
proof (intro conjI impI)
  show "length text \<le> maxTokens * 4 \<Longrightarrow> truncateText text maxTokens = text"
    by (simp add: truncateText_def Let_def)
next
  assume long: "maxTokens * 4 < length text"
  define M where "M = maxTokens * 4"
  define l where "l = lastIndexOf (take M text) CHR '' ''"
  have res: "truncateText text maxTokens
          = (if 5 * l > 4 * int M then take (nat l) text else take M text) @ ''...''"
    using truncateText_long[OF long] by (simp add: M_def l_def)
  have lenM: "length (take M text) = M" using long by (simp add: M_def)
  have lM: "l < int M" using lastIndexOf_range[of "take M text" "CHR '' ''"] lenM
    by (simp add: l_def)
  show "\<exists>kept. truncateText text maxTokens = kept @ ''...''
           \<and> kept = take (length kept) text
           \<and> length kept \<le> maxTokens * 4
           \<and> (length kept = maxTokens * 4
                \<and> (\<forall>j. j < maxTokens * 4 \<and> 4 * (maxTokens * 4) < 5 * j
                      \<longrightarrow> text ! j \<noteq> CHR '' '')
              \<or> 4 * (maxTokens * 4) < 5 * length kept
                \<and> length kept < maxTokens * 4
                \<and> text ! length kept = CHR '' ''
                \<and> (\<forall>j. length kept < j \<and> j < maxTokens * 4 \<longrightarrow> text ! j \<noteq> CHR '' ''))"
  proof (cases "5 * l > 4 * int M")
    case True
    then have l0: "0 \<le> l" by linarith
    have nl: "nat l < M" using lM l0 by linarith
    have len: "length (take (nat l) text) = nat l" using nl long by (simp add: M_def)
    from lastIndexOf_found[of "take M text" "CHR '' ''"] l0
    have sp: "take M text ! nat l = CHR '' ''"
      and after: "\<And>j. nat l < j \<Longrightarrow> j < M \<Longrightarrow> take M text ! j \<noteq> CHR '' ''"
      using lenM by (auto simp: l_def)
    have sp': "text ! nat l = CHR '' ''" using sp nl by simp
    have after': "\<forall>j. nat l < j \<and> j < M \<longrightarrow> text ! j \<noteq> CHR '' ''"
      using after by auto
    have big: "4 * M < 5 * nat l" using True l0 by linarith
    show ?thesis
      apply (rule exI[of _ "take (nat l) text"])
      using True res len nl sp' after' big by (simp add: M_def)
  next
    case False
    have nospace: "\<forall>j. j < M \<and> 4 * M < 5 * j \<longrightarrow> text ! j \<noteq> CHR '' ''"
    proof (intro allI impI)
      fix j assume j: "j < M \<and> 4 * M < 5 * j"
      show "text ! j \<noteq> CHR '' ''"
      proof (cases "0 \<le> l")
        case True
        from j False True have "nat l < j" by linarith
        with lastIndexOf_found[of "take M text" "CHR '' ''"] True j lenM
        have "take M text ! j \<noteq> CHR '' ''" by (auto simp: l_def)
        with j show ?thesis by simp
      next
        case False
        then have "CHR '' '' \<notin> set (take M text)"
          using lastIndexOf_absent[of "take M text" "CHR '' ''"] by (simp add: l_def)
        then have "take M text ! j \<noteq> CHR '' ''"
          using j lenM by (metis nth_mem)
        with j show ?thesis by simp
      qed
    qed
    show ?thesis
      apply (rule exI[of _ "take M text"])
      using False res lenM nospace by (simp add: M_def)
  qed
next
  show "length (truncateText text maxTokens) \<le> maxTokens * 4 + 3"
  proof (cases "length text \<le> maxTokens * 4")
    case True
    then show ?thesis by (simp add: truncateText_def Let_def)
  next
    case False
    then have long: "maxTokens * 4 < length text" by simp
    have "lastIndexOf (take (maxTokens * 4) text) CHR '' '' < int (maxTokens * 4)"
      using lastIndexOf_range[of "take (maxTokens * 4) text" "CHR '' ''"] long by simp
    then have "nat (lastIndexOf (take (maxTokens * 4) text) CHR '' '') \<le> maxTokens * 4"
      by linarith
    then show ?thesis unfolding truncateText_long[OF long] by (simp add: min_def)
  qed
qed

theorem truncateText_amended_witness:
  "truncateText ''abcdefg hijkl'' 2 = ''abcdefg...''
   \<and> truncateText ''short'' 2 = ''short''"
proof -
  have long: "2 * 4 < length ''abcdefg hijkl''" by simp
  from truncateText_amended[of "''abcdefg hijkl''" 2] long
  obtain kept where k: "truncateText ''abcdefg hijkl'' 2 = kept @ ''...''"
    "kept = take (length kept) ''abcdefg hijkl''"
    "length kept = 2 * 4
        \<and> (\<forall>j. j < 2 * 4 \<and> 4 * (2 * 4) < 5 * j \<longrightarrow> ''abcdefg hijkl'' ! j \<noteq> CHR '' '')
     \<or> 4 * (2 * 4) < 5 * length kept \<and> length kept < 2 * 4
        \<and> ''abcdefg hijkl'' ! length kept = CHR '' ''
        \<and> (\<forall>j. length kept < j \<and> j < 2 * 4 \<longrightarrow> ''abcdefg hijkl'' ! j \<noteq> CHR '' '')"
    by blast
  have "length kept = 7"
  proof -
    from k(3) show ?thesis
    proof
      assume a: "length kept = 2 * 4
        \<and> (\<forall>j. j < 2 * 4 \<and> 4 * (2 * 4) < 5 * j \<longrightarrow> ''abcdefg hijkl'' ! j \<noteq> CHR '' '')"
      then have "(7::nat) < 2 * 4 \<and> 4 * (2 * 4) < 5 * (7::nat)
          \<longrightarrow> ''abcdefg hijkl'' ! 7 \<noteq> CHR '' ''" by blast
      then show ?thesis by simp
    next
      assume a: "4 * (2 * 4) < 5 * length kept \<and> length kept < 2 * 4
        \<and> ''abcdefg hijkl'' ! length kept = CHR '' ''
        \<and> (\<forall>j. length kept < j \<and> j < 2 * 4 \<longrightarrow> ''abcdefg hijkl'' ! j \<noteq> CHR '' '')"
      then show ?thesis by arith
    qed
  qed
  with k(1,2) have 1: "truncateText ''abcdefg hijkl'' 2 = ''abcdefg...''" by simp
  have short: "length ''short'' \<le> 2 * 4" by simp
  from truncateText_amended[of "''short''" 2] short
  have 2: "truncateText ''short'' 2 = ''short''" by blast
  from 1 2 show ?thesis by simp
qed

subsection \<open>Batches and alignment\<close>

lemma generateEmbeddings_loop_spec:
  assumes "0 < batchSize"
    and "i = k * batchSize"
    and "length embs = min i (length texts)"
    and "w = world_before_batch create maxTok batchSize texts w0 k"
    and "\<forall>j<length embs. embs ! j = expected_slot create maxTok batchSize texts w0 j"
  shows "\<exists>embs' w'. generateEmbeddings_loop create maxTok batchSize texts i embs w
             = Some (embs', w')
          \<and> length embs' = length texts
          \<and> (\<forall>j<length texts. embs' ! j = expected_slot create maxTok batchSize texts w0 j)"
  using assms
proof (induction "length texts - i" arbitrary: i k embs w rule: less_induct)
  case less
  show ?case
  proof (cases "i < length texts")
    case False
    with less.prems show ?thesis by simp
  next
    case True
    define batch where "batch = take batchSize (drop i texts)"
    have batch_k: "batch = batch_texts batchSize texts k"
      using less.prems(2) by (simp add: batch_def batch_texts_def)
    have len_embs: "length embs = i" using less.prems(3) True by simp
    have len_batch: "length batch = min batchSize (length texts - i)"
      by (simp add: batch_def)
    have batch_pos: "0 < length batch" using True less.prems(1) len_batch by simp
    obtain r w1 where r: "create (map (\<lambda>text. truncateText text maxTok) batch) w = (r, w1)"
      by (cases "create (map (\<lambda>text. truncateText text maxTok) batch) w")
    have resp: "batch_response create maxTok batchSize texts w0 k = r"
      using r less.prems(4) batch_k by (simp add: batch_response_def)
    have w1: "w1 = world_before_batch create maxTok batchSize texts w0 (Suc k)"
      using r less.prems(4) batch_k by simp
    define slots where "slots =
      (case batch_data create maxTok batchSize texts w0 k of
         Some data \<Rightarrow> map Vec data | None \<Rightarrow> replicate (length batch) Null)"
    have len_slots: "length slots = length batch"
      by (auto simp: slots_def batch_data_def batch_k split: sum.splits option.splits)
    have step: "generateEmbeddings_loop create maxTok batchSize texts i embs w
        = generateEmbeddings_loop create maxTok batchSize texts (i + batchSize)
            (embs @ slots) w1"
      using True less.prems(1) r resp
      by (subst generateEmbeddings_loop.simps)
         (auto simp: Let_def slots_def batch_data_def batch_def[symmetric] batch_k[symmetric]
               split: sum.splits option.splits)
    have slot_j: "(embs @ slots) ! j = expected_slot create maxTok batchSize texts w0 j"
      if j: "j < length (embs @ slots)" for j
    proof (cases "j < i")
      case True
      then show ?thesis using less.prems(5) len_embs by (simp add: nth_append)
    next
      case False
      then have ji: "i \<le> j" by simp
      from j len_embs len_slots len_batch have jb: "j - i < length batch" "j < i + batchSize"
        using ji by auto
      have div: "j div batchSize = k"
        using ji jb(2) less.prems(1,2)
        by (metis add.commute div_nat_eqI mult.commute mult_Suc)
      have md: "j mod batchSize = j - i"
        using div less.prems(2) by (metis minus_mult_div_eq_mod mult.commute)
      have "(embs @ slots) ! j = slots ! (j - i)"
        using False len_embs by (simp add: nth_append)
      also have "\<dots> = expected_slot create maxTok batchSize texts w0 j"
        using jb(1) len_slots
        by (auto simp: slots_def expected_slot_def div md batch_data_def batch_k
                 split: sum.splits option.splits)
      finally show ?thesis .
    qed
    have len_new: "length (embs @ slots) = min (i + batchSize) (length texts)"
      using len_embs len_slots len_batch True by auto
    have "\<exists>embs' w'. generateEmbeddings_loop create maxTok batchSize texts (i + batchSize)
               (embs @ slots) w1 = Some (embs', w')
          \<and> length embs' = length texts
          \<and> (\<forall>j<length texts. embs' ! j = expected_slot create maxTok batchSize texts w0 j)"
    proof (rule less.hyps[of "i + batchSize" "Suc k"])
      show "length texts - (i + batchSize) < length texts - i"
        using True less.prems(1) by simp
      show "0 < batchSize" by fact
      show "i + batchSize = Suc k * batchSize" using less.prems(2) by simp
      show "length (embs @ slots) = min (i + batchSize) (length texts)" by fact
      show "w1 = world_before_batch create maxTok batchSize texts w0 (Suc k)" by fact
      show "\<forall>j<length (embs @ slots).
          (embs @ slots) ! j = expected_slot create maxTok batchSize texts w0 j"
        using slot_j by blast
    qed
    then show ?thesis unfolding step .
  qed
qed

lemma generateEmbeddings_spec:
  assumes "texts \<noteq> []" and "0 < batchSize"
  shows "\<exists>embs w'. generateEmbeddings create maxTok texts batchSize w = Some (Inr embs, w')
          \<and> length embs = length texts
          \<and> (\<forall>i<length texts. embs ! i = expected_slot create maxTok batchSize texts w i)"
proof -
  from generateEmbeddings_loop_spec[of batchSize 0 0 "[]" texts w create maxTok w] assms(2)
  obtain embs w' where
    "generateEmbeddings_loop create maxTok batchSize texts 0 [] w = Some (embs, w')"
    "length embs = length texts"
    "\<forall>j<length texts. embs ! j = expected_slot create maxTok batchSize texts w j"
    by auto
  then show ?thesis using assms(1) by (simp add: generateEmbeddings_def)
qed

text \<open>
  Claim C10. For every non-empty list of texts (and a positive batch size; the default is
  100) \<open>generateEmbeddings\<close> returns a list of exactly the length of the input. Position
  \<open>i\<close> belongs to batch \<open>i div batchSize\<close>: when that batch succeeded it holds the vector
  the provider returned for the text at that position of the batch, and when the batch
  failed it holds \<open>null\<close>, as do all positions of that batch. Reading the result by index
  at a position of the input therefore never yields \<open>undefined\<close>.
\<close>

theorem generateEmbeddings_aligned:
  assumes "texts \<noteq> []" and "0 < batchSize"
  shows "\<exists>embs w'. generateEmbeddings create maxTok texts batchSize w = Some (Inr embs, w')
          \<and> length embs = length texts
          \<and> (\<forall>i<length texts.
                slot_at embs i = embs ! i
                \<and> (case batch_data create maxTok batchSize texts w (i div batchSize) of
                      Some data \<Rightarrow> embs ! i = Vec (data ! (i mod batchSize))
                    | None \<Rightarrow> embs ! i = Null))"
proof -
  from generateEmbeddings_spec[OF assms, of create maxTok w]
  obtain embs w' where e: "generateEmbeddings create maxTok texts batchSize w = Some (Inr embs, w')"
    "length embs = length texts"
    "\<forall>i<length texts. embs ! i = expected_slot create maxTok batchSize texts w i"
    by blast
  have "slot_at embs i = embs ! i
        \<and> (case batch_data create maxTok batchSize texts w (i div batchSize) of
              Some data \<Rightarrow> embs ! i = Vec (data ! (i mod batchSize))
            | None \<Rightarrow> embs ! i = Null)" if "i < length texts" for i
    using that e(2,3) by (auto simp: slot_at_def expected_slot_def split: option.splits)
  with e(1,2) show ?thesis by blast
qed

lemma sample_world0: "world_before_batch sample_create maxTok batchSize texts 0 k = k"
  by (induction k) (simp_all add: sample_create_def)

lemma sample_batch_data:
  "batch_data sample_create 4000 2 [''a'', ''bb'', ''ccc''] 0 0 = Some [[1], [2]]"
  "batch_data sample_create 4000 2 [''a'', ''bb'', ''ccc''] 0 (Suc 0) = None"
  by (simp_all add: batch_data_def batch_response_def sample_world0 sample_create_def
      batch_texts_def truncateText_def Let_def)

theorem generateEmbeddings_aligned_witness:
  "\<exists>w'. generateEmbeddings sample_create 4000 [''a'', ''bb'', ''ccc''] 2 0
      = Some (Inr [Vec [1], Vec [2], Null], w')"
proof -
  have ne: "[''a'', ''bb'', ''ccc''] \<noteq> []" and pos: "0 < (2::nat)" by simp_all
  from generateEmbeddings_aligned[OF ne pos, of sample_create 4000 0]
  obtain embs w' where e:
    "generateEmbeddings sample_create 4000 [''a'', ''bb'', ''ccc''] 2 0 = Some (Inr embs, w')"
    "length embs = 3"
    "\<forall>i<3. (case batch_data sample_create 4000 2 [''a'', ''bb'', ''ccc''] 0 (i div 2) of
                Some data \<Rightarrow> embs ! i = Vec (data ! (i mod 2))
              | None \<Rightarrow> embs ! i = Null)"
    by auto
  have "embs ! 0 = Vec [1]"
    using e(3)[rule_format, of 0] sample_batch_data by simp
  moreover have "embs ! 1 = Vec [2]"
    using e(3)[rule_format, of 1] sample_batch_data by simp
  moreover have "embs ! 2 = Null"
    using e(3)[rule_format, of 2] sample_batch_data by simp
  ultimately have "embs ! 0 = Vec [1]" "embs ! 1 = Vec [2]" "embs ! 2 = Null" by blast+
  with e(2) have "embs = [Vec [1], Vec [2], Null]"
    by (auto simp: list_eq_iff_nth_eq less_Suc_eq numeral_3_eq_3 numeral_2_eq_2)
  with e(1) show ?thesis by blast
qed

lemma attach_embeddings_nth:
  assumes "length embs = length es"
  shows "attach_embeddings es embs
       = map (\<lambda>i. \<lparr>entry_of = es ! i, embedding = embs ! i\<rparr>) [0..<length es]"
proof -
  have "zip es [0..<length es] = map (\<lambda>i. (es ! i, i)) [0..<length es]"
    by (intro nth_equalityI) simp_all
  then show ?thesis
    using assms by (simp add: attach_embeddings_def slot_at_def)
qed

lemma processContentEntries_spec:
  fixes cfg :: "('w, 'x) config" and es :: "'x content_entry list"
  defines "texts \<equiv> map (embeddingText cfg) es"
  assumes "es \<noteq> []"
  shows "\<exists>w'. processContentEntries cfg create es w
      = Some (Inr (map (\<lambda>i. \<lparr>entry_of = es ! i,
                     embedding = expected_slot create (openai_maxTokens cfg) 100 texts w i\<rparr>)
                 (filter (\<lambda>i. batch_data create (openai_maxTokens cfg) 100 texts w (i div 100)
                              \<noteq> None) [0..<length es])), w')"
proof -
  have ne: "texts \<noteq> []" using assms by simp
  from generateEmbeddings_spec[OF ne, of 100 create "openai_maxTokens cfg" w]
  obtain embs w' where e:
    "generateEmbeddings create (openai_maxTokens cfg) texts 100 w = Some (Inr embs, w')"
    "length embs = length es"
    "\<forall>i<length es. embs ! i = expected_slot create (openai_maxTokens cfg) 100 texts w i"
    by (auto simp: texts_def)
  let ?f = "\<lambda>i. \<lparr>entry_of = es ! i, embedding = embs ! i\<rparr>"
  let ?g = "\<lambda>i. \<lparr>entry_of = es ! i,
                embedding = expected_slot create (openai_maxTokens cfg) 100 texts w i\<rparr>"
  let ?ok = "\<lambda>i. batch_data create (openai_maxTokens cfg) 100 texts w (i div 100) \<noteq> None"
  have "filter (\<lambda>p. embedding p \<noteq> Null) (attach_embeddings es embs)
      = map ?f (filter (\<lambda>i. embs ! i \<noteq> Null) [0..<length es])"
    by (simp add: attach_embeddings_nth[OF e(2)] filter_map comp_def)
  also have "filter (\<lambda>i. embs ! i \<noteq> Null) [0..<length es] = filter ?ok [0..<length es]"
    using e(3) by (intro filter_cong) (auto simp: expected_slot_def split: option.splits)
  also have "map ?f (filter ?ok [0..<length es]) = map ?g (filter ?ok [0..<length es])"
    using e(3) by (intro map_cong) auto
  finally show ?thesis
    using e(1) by (auto simp: processContentEntries_def Let_def texts_def)
qed

text \<open>
  Claim C6. Whenever \<open>processContentEntries\<close> returns, its output lists, in input order,
  exactly the entries at the positions whose batch (of 100) succeeded; it is a
  subsequence of the input; every record in it carries a vector, never \<open>null\<close> or
  \<open>undefined\<close>; and if some batch failed the output is strictly shorter than the input (so
  ten records of which one batch fails give fewer than ten). It returns for every
  non-empty input. On the empty list there is no output: the guard of
  \<open>generateEmbeddings\<close> throws.
\<close>

theorem processContentEntries_order_exclusion:
  fixes cfg :: "('w, 'x) config" and es :: "'x content_entry list"
  shows
  "(es \<noteq> [] \<longrightarrow> (\<exists>out w'. processContentEntries cfg create es w = Some (Inr out, w')))
   \<and> (es = [] \<longrightarrow> processContentEntries cfg create es w
          = Some (Inl (new_Error ''Texts must be a non-empty array''), w))
   \<and> (\<forall>out w'. processContentEntries cfg create es w = Some (Inr out, w') \<longrightarrow>
         map entry_of out
           = map (\<lambda>i. es ! i)
               (filter (\<lambda>i. batch_data create (openai_maxTokens cfg) 100
                              (map (embeddingText cfg) es) w (i div 100) \<noteq> None)
                  [0..<length es])
         \<and> subseq (map entry_of out) es
         \<and> (\<forall>p\<in>set out. \<exists>v. embedding p = Vec v)
         \<and> ((\<exists>k. k * 100 < length es
                \<and> batch_data create (openai_maxTokens cfg) 100
                     (map (embeddingText cfg) es) w k = None)
             \<longrightarrow> length out < length es))"
proof (intro conjI impI allI)
  assume "es \<noteq> []"
  then show "\<exists>out w'. processContentEntries cfg create es w = Some (Inr out, w')"
    using processContentEntries_spec[of es cfg create w] by blast
next
  assume "es = []"
  then show "processContentEntries cfg create es w
          = Some (Inl (new_Error ''Texts must be a non-empty array''), w)"
    by (simp add: processContentEntries_def generateEmbeddings_def)
next
  fix out w'
  assume r: "processContentEntries cfg create es w = Some (Inr out, w')"
  have ne: "es \<noteq> []"
  proof
    assume "es = []"
    with r show False by (simp add: processContentEntries_def generateEmbeddings_def)
  qed
  let ?texts = "map (embeddingText cfg) es"
  let ?ok = "\<lambda>k. batch_data create (openai_maxTokens cfg) 100 ?texts w k \<noteq> None"
  let ?sel = "filter (\<lambda>i. ?ok (i div 100)) [0..<length es]"
  from processContentEntries_spec[OF ne, of cfg create w] r
  have out: "out = map (\<lambda>i. \<lparr>entry_of = es ! i,
                 embedding = expected_slot create (openai_maxTokens cfg) 100 ?texts w i\<rparr>) ?sel"
    by auto
  show m: "map entry_of out = map (\<lambda>i. es ! i) ?sel"
    unfolding out by (simp add: comp_def)
  have "subseq (map (\<lambda>i. es ! i) ?sel) (map (\<lambda>i. es ! i) [0..<length es])"
    by (intro subseq_map subseq_filter_left)
  then show "subseq (map entry_of out) es"
    unfolding m by (simp add: map_nth)
  show "\<forall>p\<in>set out. \<exists>v. embedding p = Vec v"
    unfolding out by (auto simp: expected_slot_def split: option.splits)
  show "length out < length es"
    if "\<exists>k. k * 100 < length es
          \<and> batch_data create (openai_maxTokens cfg) 100 ?texts w k = None"
  proof -
    from that obtain k where k: "k * 100 < length es" "\<not> ?ok k" by blast
    have "k * 100 \<in> set [0..<length es]" using k(1) by simp
    moreover have "\<not> ?ok ((k * 100) div 100)" using k(2) by simp
    ultimately have "length ?sel < length [0..<length es]"
      by (intro length_filter_less[of "k * 100"]) auto
    then show ?thesis unfolding out by simp
  qed
qed

lemma failing_world0: "world_before_batch failing_create maxTok batchSize texts w k = w + k"
  by (induction k) (simp_all add: failing_create_def)

theorem processContentEntries_order_exclusion_witness:
  "(\<exists>w'. processContentEntries sample_config failing_create ten_entries 0 = Some (Inr [], w'))
   \<and> processContentEntries sample_config failing_create [] 0
       = Some (Inl (new_Error ''Texts must be a non-empty array''), 0)"
proof
  have ne: "ten_entries \<noteq> []" by (simp add: ten_entries_def)
  from processContentEntries_order_exclusion[of ten_entries sample_config failing_create 0] ne
  obtain out w' where r:
    "processContentEntries sample_config failing_create ten_entries 0 = Some (Inr out, w')"
    by blast
  have bad: "\<exists>k. k * 100 < length ten_entries
      \<and> batch_data failing_create (openai_maxTokens sample_config) 100
            (map (embeddingText sample_config) ten_entries) 0 k = None"
    by (rule exI[of _ 0])
       (simp add: ten_entries_def batch_data_def batch_response_def failing_create_def)
  from processContentEntries_order_exclusion[of ten_entries sample_config failing_create 0] r bad
  have short: "length out < length ten_entries"
    and props: "map entry_of out
      = map (\<lambda>i. ten_entries ! i)
          (filter (\<lambda>i. batch_data failing_create (openai_maxTokens sample_config) 100
               (map (embeddingText sample_config) ten_entries) 0 (i div 100) \<noteq> None)
            [0..<length ten_entries])"
    by blast+
  have "\<forall>k. batch_data failing_create (openai_maxTokens sample_config) 100
               (map (embeddingText sample_config) ten_entries) 0 k = None"
    by (simp add: batch_data_def batch_response_def failing_create_def)
  with props have "out = []" by simp
  with r show "\<exists>w'. processContentEntries sample_config failing_create ten_entries 0
      = Some (Inr [], w')" by blast
next
  show "processContentEntries sample_config failing_create [] 0
       = Some (Inl (new_Error ''Texts must be a non-empty array''), 0)"
    using processContentEntries_order_exclusion[of "[]" sample_config failing_create 0]
    by blast
qed

section \<open>Properties of the Contentstack service\<close>

text \<open>
  Claim C7. The id that \<open>transformEntry\<close> produces is the string
  \<open>{category}_{sourceId}_{locale}\<close>: for a raw entry whose uid is \<open>u\<close> it is the category,
  an underscore, \<open>u\<close>, an underscore and the locale (a raw entry without a uid prints as
  "undefined" there). It depends on nothing else: a second call on the same raw entry
  with the same category and locale, at another time and even under another extraction
  policy, yields the same id. For every raw entry and category the id for locale "en-us"
  differs from the id for locale "fr-fr".
\<close>

theorem transformEntry_id_deterministic:
  "(\<forall>u. raw_uid raw = Some u
       \<longrightarrow> entry_id (transformEntry cfg clock raw cat loc) = cat @ ''_'' @ u @ ''_'' @ loc)
   \<and> (raw_uid raw = None
       \<longrightarrow> entry_id (transformEntry cfg clock raw cat loc) = cat @ ''_undefined_'' @ loc)
   \<and> entry_id (transformEntry cfg clock raw cat loc)
      = entry_id (transformEntry cfg' clock' raw cat loc)
   \<and> entry_id (transformEntry cfg clock raw cat ''en-us'')
      \<noteq> entry_id (transformEntry cfg' clock' raw cat ''fr-fr'')"
  by (simp add: transformEntry_def uid_text_def)

theorem transformEntry_id_deterministic_witness:
  "entry_id (transformEntry sample_config ''2024-06-01T00:00:00.000Z'' (sample_raw ''e1'')
      ''blog_post'' ''en-us'') = ''blog_post_e1_en-us''
   \<and> entry_id (transformEntry sample_config ''2024-06-01T00:00:00.000Z''
        \<lparr>raw_uid = None, raw_updated_at = None, raw_metadata_updated_at = None,
         raw_fields = ()\<rparr> ''blog_post'' ''en-us'') = ''blog_post_undefined_en-us''"
proof -
  have u: "raw_uid (sample_raw ''e1'') = Some ''e1''" by (simp add: sample_raw_def)
  from transformEntry_id_deterministic[of "sample_raw ''e1''" sample_config
      "''2024-06-01T00:00:00.000Z''" "''blog_post''" "''en-us''"] u
  have 1: "entry_id (transformEntry sample_config ''2024-06-01T00:00:00.000Z''
      (sample_raw ''e1'') ''blog_post'' ''en-us'') = ''blog_post'' @ ''_'' @ ''e1'' @ ''_'' @ ''en-us''"
    by blast
  let ?raw = "\<lparr>raw_uid = None, raw_updated_at = None, raw_metadata_updated_at = None,
         raw_fields = ()\<rparr>"
  have n: "raw_uid ?raw = None" by simp
  from transformEntry_id_deterministic[of ?raw sample_config
      "''2024-06-01T00:00:00.000Z''" "''blog_post''" "''en-us''"] n
  have 2: "entry_id (transformEntry sample_config ''2024-06-01T00:00:00.000Z'' ?raw
      ''blog_post'' ''en-us'') = ''blog_post'' @ ''_undefined_'' @ ''en-us''"
    by blast
  from 1 2 show ?thesis by simp
qed

subsection \<open>Pagination\<close>

lemma transformEntry_logged:
  "transformEntry (logged_config cfg) (now (logged_config cfg) (w, lg)) raw ct loc
     = transformEntry cfg (now cfg w) raw ct loc"
  by (simp add: transformEntry_def logged_config_def)

lemma fetch_pages_unfold:
  assumes "getEntriesByContentType src ct loc bs skip w = (r, w1)"
  shows "fetch_pages cfg src ct loc bs skip bc acc w =
     (case r of
        Inl error \<Rightarrow> (acc, bc + 1, True, w1)
      | Inr res \<Rightarrow>
          if entries res = [] then (acc, bc + 1, False, w1)
          else if page_continues bs (skip, r) \<and> bc + 1 \<le> 100
          then fetch_pages cfg src ct loc bs (skip + bs) (bc + 1)
                 (acc @ map (\<lambda>raw. transformEntry cfg (now cfg w1) raw ct loc) (entries res)) w1
          else (acc @ map (\<lambda>raw. transformEntry cfg (now cfg w1) raw ct loc) (entries res),
                bc + 1, False, w1))"
  using assms
  by (subst fetch_pages.simps) (auto simp: Let_def page_continues_def split: sum.splits)

lemma fetch_pages_logged:
  assumes "fetch_pages (logged_config cfg) (logged_source src) ct loc bs skip bc acc (w, lg)
             = (es, bc', failed, (w', lg'))"
  shows "fetch_pages cfg src ct loc bs skip bc acc w = (es, bc', failed, w')
     \<and> (\<exists>new. lg' = lg @ new \<and> new \<noteq> [] \<and> bc' = bc + length new
           \<and> map fst new = map (\<lambda>k. skip + k * bs) [0..<length new]
           \<and> (\<forall>k. Suc k < length new \<longrightarrow> page_continues bs (new ! k))
           \<and> (bc \<le> 100 \<longrightarrow> bc' \<le> 101)
           \<and> (bc \<le> 100 \<and> page_continues bs (last new) \<longrightarrow> bc' = 101))"
  using assms
proof (induction "100 - bc" arbitrary: skip bc acc w lg rule: less_induct)
  case less
  obtain r w1 where r: "getEntriesByContentType src ct loc bs skip w = (r, w1)"
    by (cases "getEntriesByContentType src ct loc bs skip w")
  have lr: "getEntriesByContentType (logged_source src) ct loc bs skip (w, lg)
      = (r, (w1, lg @ [(skip, r)]))"
    using r by (simp add: logged_source_def)
  note plain = fetch_pages_unfold[OF r, of cfg bc acc]
  note logged = fetch_pages_unfold[OF lr, of "logged_config cfg" bc acc]
  show ?case
  proof (cases "page_continues bs (skip, r) \<and> bc + 1 \<le> 100")
    case False
    have stop: "fetch_pages cfg src ct loc bs skip bc acc w = (es, bc', failed, w')
        \<and> bc' = bc + 1 \<and> lg' = lg @ [(skip, r)]"
      using less.prems False unfolding plain logged
      by (auto simp: transformEntry_logged split: sum.splits if_splits)
    have "\<exists>new. lg' = lg @ new \<and> new \<noteq> [] \<and> bc' = bc + length new
           \<and> map fst new = map (\<lambda>k. skip + k * bs) [0..<length new]
           \<and> (\<forall>k. Suc k < length new \<longrightarrow> page_continues bs (new ! k))
           \<and> (bc \<le> 100 \<longrightarrow> bc' \<le> 101)
           \<and> (bc \<le> 100 \<and> page_continues bs (last new) \<longrightarrow> bc' = 101)"
      using stop False by (intro exI[of _ "[(skip, r)]"]) auto
    with stop show ?thesis by blast
  next
    case True
    then obtain res where res: "r = Inr res" "entries res \<noteq> []"
      by (auto simp: page_continues_def split: sum.splits)
    let ?acc' = "acc @ map (\<lambda>raw. transformEntry cfg (now cfg w1) raw ct loc) (entries res)"
    have step: "fetch_pages cfg src ct loc bs skip bc acc w
        = fetch_pages cfg src ct loc bs (skip + bs) (bc + 1) ?acc' w1"
      unfolding plain using True res by simp
    have lstep: "fetch_pages (logged_config cfg) (logged_source src) ct loc bs skip bc acc (w, lg)
        = fetch_pages (logged_config cfg) (logged_source src) ct loc bs (skip + bs) (bc + 1)
            ?acc' (w1, lg @ [(skip, r)])"
      unfolding logged using True res by (simp add: transformEntry_logged)
    have "fetch_pages cfg src ct loc bs (skip + bs) (bc + 1) ?acc' w1 = (es, bc', failed, w')
     \<and> (\<exists>new. lg' = (lg @ [(skip, r)]) @ new \<and> new \<noteq> [] \<and> bc' = (bc + 1) + length new
           \<and> map fst new = map (\<lambda>k. (skip + bs) + k * bs) [0..<length new]
           \<and> (\<forall>k. Suc k < length new \<longrightarrow> page_continues bs (new ! k))
           \<and> (bc + 1 \<le> 100 \<longrightarrow> bc' \<le> 101)
           \<and> (bc + 1 \<le> 100 \<and> page_continues bs (last new) \<longrightarrow> bc' = 101))"
    proof (rule less.hyps)
      show "100 - (bc + 1) < 100 - bc" using True by linarith
      show "fetch_pages (logged_config cfg) (logged_source src) ct loc bs (skip + bs) (bc + 1)
            ?acc' (w1, lg @ [(skip, r)]) = (es, bc', failed, w', lg')"
        using less.prems lstep by simp
    qed
    then obtain new where run: "fetch_pages cfg src ct loc bs (skip + bs) (bc + 1) ?acc' w1
          = (es, bc', failed, w')"
      and new: "lg' = (lg @ [(skip, r)]) @ new" "new \<noteq> []" "bc' = (bc + 1) + length new"
        "map fst new = map (\<lambda>k. (skip + bs) + k * bs) [0..<length new]"
        "\<forall>k. Suc k < length new \<longrightarrow> page_continues bs (new ! k)"
        "bc' \<le> 101" "page_continues bs (last new) \<longrightarrow> bc' = 101"
      using True by auto
    let ?new = "(skip, r) # new"
    have skips: "map fst ?new = map (\<lambda>k. skip + k * bs) [0..<length ?new]"
    proof -
      have "[0..<length ?new] = 0 # map Suc [0..<length new]"
        by (simp add: upt_conv_Cons map_Suc_upt del: upt_Suc)
      then show ?thesis using new(4) by (simp add: comp_def add.assoc add.commute)
    qed
    have cont: "\<forall>k. Suc k < length ?new \<longrightarrow> page_continues bs (?new ! k)"
    proof (intro allI impI)
      fix k assume k: "Suc k < length ?new"
      show "page_continues bs (?new ! k)"
      proof (cases k)
        case 0
        then show ?thesis using True by simp
      next
        case (Suc j)
        then show ?thesis using k new(5) by simp
      qed
    qed
    have "fetch_pages cfg src ct loc bs skip bc acc w = (es, bc', failed, w')"
      using step run by simp
    moreover have "\<exists>new. lg' = lg @ new \<and> new \<noteq> [] \<and> bc' = bc + length new
           \<and> map fst new = map (\<lambda>k. skip + k * bs) [0..<length new]
           \<and> (\<forall>k. Suc k < length new \<longrightarrow> page_continues bs (new ! k))
           \<and> (bc \<le> 100 \<longrightarrow> bc' \<le> 101)
           \<and> (bc \<le> 100 \<and> page_continues bs (last new) \<longrightarrow> bc' = 101)"
      using new(1,2,3,6,7) skips cont by (intro exI[of _ ?new]) (simp del: upt_Suc)
    ultimately show ?thesis by blast
  qed
qed

lemma endless_pages:
  assumes "0 < bs" and "bc \<le> 100"
  shows "\<exists>es. fetch_pages cfg endless_source ct loc bs skip bc acc w
            = (es, 101, False, w + (101 - bc))"
  using assms
proof (induction "100 - bc" arbitrary: skip bc acc w rule: less_induct)
  case less
  let ?res = "\<lparr>entries = replicate bs (sample_raw ''entry''), count = skip + bs + 1\<rparr>"
  have r: "getEntriesByContentType endless_source ct loc bs skip w = (Inr ?res, Suc w)"
    by (simp add: endless_source_def)
  have cont: "page_continues bs (skip, Inr ?res)"
    using less.prems(1) by (simp add: page_continues_def)
  note unfold = fetch_pages_unfold[OF r, of cfg bc acc]
  show ?case
  proof (cases "bc + 1 \<le> 100")
    case True
    let ?acc' = "acc @ map (\<lambda>raw. transformEntry cfg (now cfg (Suc w)) raw ct loc)
        (replicate bs (sample_raw ''entry''))"
    have "100 - (bc + 1) < 100 - bc" using True by linarith
    from less.hyps[OF this less.prems(1) True, of "skip + bs" ?acc' "Suc w"]
    obtain es where "fetch_pages cfg endless_source ct loc bs (skip + bs) (bc + 1) ?acc' (Suc w)
        = (es, 101, False, Suc w + (101 - (bc + 1)))" by blast
    moreover have "Suc w + (101 - (bc + 1)) = w + (101 - bc)" using True by linarith
    ultimately show ?thesis unfolding unfold using cont True less.prems(1) by simp
  next
    case False
    with less.prems(2) have "bc = 100" by simp
    then show ?thesis unfolding unfold using less.prems(1) by simp
  qed
qed

text \<open>
  Claim C8 as stated fails on the ceiling. Against a source whose every page is full and
  reports more records to come, \<open>getAllEntries\<close> with one content type, one locale and
  page size 50 makes 101 page requests (the world of that source counts them): the test
  \<open>batchCount > 100\<close> runs after the page was fetched, so it first holds once the
  101st page has been fetched.
\<close>

theorem getAllEntries_page_ceiling_counterexample:
  "snd (getAllEntries sample_config endless_source [''en-us''] 50 0) = 101
   \<and> \<not> snd (getAllEntries sample_config endless_source [''en-us''] 50 0) \<le> 100"
proof -
  from endless_pages[of 50 0 sample_config "''blog_post''" "''en-us''" 0 "[]" 0]
  obtain es where "fetch_pages sample_config endless_source ''blog_post'' ''en-us'' 50 0 0 [] 0
      = (es, 101, False, 101)" by auto
  then have "snd (getAllEntries sample_config endless_source [''en-us''] 50 0) = 101"
    by (simp add: getAllEntries_def endless_source_def)
  then show ?thesis by simp
qed


text \<open>
  Claim C8, amended. For every content type and locale the paging loop terminates. Its
  page requests are made with \<open>skip = 0, pageSize, 2 \<times> pageSize, \<dots>\<close>; after a request it
  asks for a further page only if that request succeeded with a non-empty page of
  exactly \<open>pageSize\<close> records and \<open>skip + pageSize\<close> is below the reported total, so it
  stops at the first failed request, empty page, short page or exhausted total; and it
  makes at least one and at most 101 requests, the number it returns as \<open>batchCount\<close>.
  When the last request would have allowed a further page, exactly 101 were made. The
  requests are observed through the logging wrapper, which does not change the result.
\<close>

theorem fetch_pages_terminates:
  "\<exists>es batchCount failed w' requests.
      fetch_pages (logged_config cfg) (logged_source src) ct loc batchSize 0 0 allEntries
        (w, []) = (es, batchCount, failed, (w', requests))
      \<and> fetch_pages cfg src ct loc batchSize 0 0 allEntries w = (es, batchCount, failed, w')
      \<and> 0 < length requests \<and> length requests \<le> 101
      \<and> batchCount = length requests
      \<and> map fst requests = map (\<lambda>k. k * batchSize) [0..<length requests]
      \<and> (\<forall>k. Suc k < length requests \<longrightarrow> page_continues batchSize (requests ! k))
      \<and> (page_continues batchSize (last requests) \<longrightarrow> length requests = 101)"
proof -
  obtain es batchCount failed w' requests where
    run: "fetch_pages (logged_config cfg) (logged_source src) ct loc batchSize 0 0 allEntries
        (w, []) = (es, batchCount, failed, (w', requests))"
    by (metis surj_pair)
  from fetch_pages_logged[OF run] have
    "fetch_pages cfg src ct loc batchSize 0 0 allEntries w = (es, batchCount, failed, w')
      \<and> 0 < length requests \<and> length requests \<le> 101
      \<and> batchCount = length requests
      \<and> map fst requests = map (\<lambda>k. k * batchSize) [0..<length requests]
      \<and> (\<forall>k. Suc k < length requests \<longrightarrow> page_continues batchSize (requests ! k))
      \<and> (page_continues batchSize (last requests) \<longrightarrow> length requests = 101)"
    by auto
  with run show ?thesis by blast
qed

theorem fetch_pages_terminates_witness:
  "fetch_pages sample_config empty_source ''blog_post'' ''en-us'' 50 0 0 [] 0
     = ([], 1, False, 1)"
proof -
  have r: "getEntriesByContentType (logged_source empty_source) ''blog_post'' ''en-us'' 50 0
      (0, []) = (Inr \<lparr>entries = [], count = 0\<rparr>, (1, [(0, Inr \<lparr>entries = [], count = 0\<rparr>)]))"
    by (simp add: logged_source_def empty_source_def)
  have logged: "fetch_pages (logged_config sample_config) (logged_source empty_source)
      ''blog_post'' ''en-us'' 50 0 0 [] (0, [])
      = ([], 1, False, (1, [(0, Inr \<lparr>entries = [], count = 0\<rparr>)]))"
    unfolding fetch_pages_unfold[OF r] by simp
  from fetch_pages_terminates[of sample_config empty_source "''blog_post''" "''en-us''" 50
      "[]" 0]
  show ?thesis unfolding logged by auto
qed

section \<open>Properties of the sync job\<close>

text \<open>
  Claim C3. A call of \<open>run\<close> that finds \<open>isRunning\<close> set returns at once without raising
  and changes nothing: every field of the job state, \<open>totalRuns\<close> included, is as
  before, and no collaborator is called (the world is as before).
\<close>

theorem run_concurrency_guard:
  assumes "isRunning st"
  shows "run cfg src create upsert st w = Some (Inr (), st, w)"
  using assms by (simp add: run_def)

theorem run_concurrency_guard_witness:
  "run sample_config endless_source sample_create sample_upsert
     (initial_job_state\<lparr>isRunning := True\<rparr>) 0
   = Some (Inr (), initial_job_state\<lparr>isRunning := True\<rparr>, 0)"
proof -
  have "isRunning (initial_job_state\<lparr>isRunning := True\<rparr>)" by simp
  from run_concurrency_guard[OF this] show ?thesis .
qed

text \<open>
  Claim C5. If the fetch phase of a run yields zero records, the run returns without
  raising, with \<open>lastRunStatus = no_content\<close>; \<open>successfulRuns\<close> is not incremented
  (\<open>totalRuns\<close> is), and the world is left as the fetch phase left it whatever the
  embedding provider and the store client are: neither is called.
\<close>

theorem run_no_content:
  assumes "\<not> isRunning st"
    and "fetchContentFromContentstack cfg src w = (Inr [], w1)"
  shows "\<exists>st'. run cfg src create upsert st w = Some (Inr (), st', w1)
     \<and> lastRunStatus (syncStats st') = Some ''no_content''
     \<and> successfulRuns (syncStats st') = successfulRuns (syncStats st)
     \<and> totalRuns (syncStats st') = totalRuns (syncStats st) + 1
     \<and> \<not> isRunning st'
     \<and> lastSyncTime st' = lastSyncTime st
     \<and> lastError (syncStats st') = lastError (syncStats st)"
  using assms by (simp add: run_def set_status_def Let_def)

lemma empty_source_fetch:
  "fetchContentFromContentstack sample_config empty_source 0 = (Inr [], 1)"
proof -
  have r: "getEntriesByContentType empty_source ''blog_post'' ''en-us'' 50 0 0
      = (Inr \<lparr>entries = [], count = 0\<rparr>, 1)"
    by (simp add: empty_source_def)
  have "fetch_pages sample_config empty_source ''blog_post'' ''en-us'' 50 0 0 [] 0
      = ([], 1, False, 1)"
    unfolding fetch_pages_unfold[OF r] by simp
  then have "getAllEntries sample_config empty_source [''en-us''] 50 0 = (Inr [], 1)"
    by (simp add: getAllEntries_def empty_source_def)
  then show ?thesis
    by (simp add: fetchContentFromContentstack_def configured_locales_def sample_config_def
        validateContentResponse_def)
qed

theorem run_no_content_witness:
  "run sample_config empty_source sample_create sample_upsert initial_job_state 0
   = Some (Inr (),
       \<lparr>isRunning = False, lastSyncTime = None,
        syncStats = \<lparr>totalRuns = 1, successfulRuns = 0,
                     lastRunStatus = Some ''no_content'', lastError = None\<rparr>\<rparr>, 1)"
proof -
  have idle: "\<not> isRunning initial_job_state" by (simp add: initial_job_state_def)
  from run_no_content[OF idle empty_source_fetch, of sample_create sample_upsert]
  obtain st' where st': "run sample_config empty_source sample_create sample_upsert
        initial_job_state 0 = Some (Inr (), st', 1)"
    "lastRunStatus (syncStats st') = Some ''no_content''"
    "successfulRuns (syncStats st') = successfulRuns (syncStats initial_job_state)"
    "totalRuns (syncStats st') = totalRuns (syncStats initial_job_state) + 1"
    "\<not> isRunning st'" "lastSyncTime st' = lastSyncTime initial_job_state"
    "lastError (syncStats st') = lastError (syncStats initial_job_state)"
    by blast
  have "st' = \<lparr>isRunning = False, lastSyncTime = None,
        syncStats = \<lparr>totalRuns = 1, successfulRuns = 0,
                     lastRunStatus = Some ''no_content'', lastError = None\<rparr>\<rparr>"
    using st'(2-) by (cases st', cases "syncStats st'") (auto simp: initial_job_state_def)
  with st'(1) show ?thesis by simp
qed

subsection \<open>The fallback ladder\<close>

lemma outage_page:
  assumes "bs \<noteq> 1"
  shows "fetch_pages trailing_comma_config outage_source ct loc bs 0 0 acc (Suc 0)
     = (acc @ [transformEntry trailing_comma_config ''2024-06-01T00:00:00.000Z''
                 (sample_raw ''e1'') ct loc], Suc 0, False, Suc 0)"
proof -
  have r: "getEntriesByContentType outage_source ct loc bs 0 (Suc 0)
      = (Inr \<lparr>entries = [sample_raw ''e1''], count = 1\<rparr>, Suc 0)"
    by (simp add: outage_source_def)
  show ?thesis
    unfolding fetch_pages_unfold[OF r] using assms
    by (simp add: page_continues_def trailing_comma_config_def sample_config_def)
qed

lemma outage_primary_fetch:
  "getAllEntries trailing_comma_config outage_source
     (configured_locales trailing_comma_config) 50 0 = (Inr outage_primary, 1)"
  by (simp add: getAllEntries_def outage_page outage_primary_def configured_locales_def
      trailing_comma_config_def[THEN arg_cong[of _ _ CONTENTSTACK_LOCALES]]
      outage_source_def[THEN arg_cong[of _ _ getContentTypes]])

lemma outage_primary_invalid: "\<not> validateContentResponse outage_primary"
  by (simp add: validateContentResponse_def outage_primary_def has_required_fields_def
      transformEntry_def)

lemma outage_getAllEntries_down:
  assumes "0 < w"
  shows "getAllEntries trailing_comma_config outage_source locs bs w
     = (Inl (new_Error (''Contentstack API error: '' @ rejected_message
              @ '' [Category: AUTHENTICATION]'')), Suc w)"
proof -
  have cat: "categorizeError (new_Error rejected_message) = AUTHENTICATION"
    by (simp add: classifier_defs new_Error_def rejected_message_def)
  have "formatContentstackError trailing_comma_config (new_Error rejected_message)
      = rejected_message @ '' [Category: AUTHENTICATION]''"
    by (simp add: trailing_comma_config_def sample_config_def cat)
       (simp add: message_text_def new_Error_def)
  then show ?thesis using assms
    by (simp add: getAllEntries_def outage_source_def)
qed

lemma outage_fetch:
  "fetchContentFromContentstack trailing_comma_config outage_source 0 = (Inl outage_failure, 2)"
proof -
  define e1 where "e1 = new_Error (''Contentstack API error: '' @ rejected_message
              @ '' [Category: AUTHENTICATION]'')"
  define e2 where "e2 = new_Error (''Fallback sync failed: '' @ message_text e1)"
  have down: "getAllEntries trailing_comma_config outage_source locs 25 (Suc 0)
      = (Inl e1, 2)" for locs
    using outage_getAllEntries_down[of "Suc 0" locs 25] by (simp add: e1_def)
  have ladder: "handlePartialSyncFailure trailing_comma_config outage_source locs (Suc 0)
      = (Inl e2, 2)" for locs
    by (simp add: handlePartialSyncFailure_def down e2_def)
  have cat: "categorizeError e2 = AUTHENTICATION"
    by (simp add: classifier_defs new_Error_def message_text_def rejected_message_def
        e1_def e2_def)
  have nrec: "\<not> isRecoverableError e2 AUTHENTICATION"
    by (simp add: classifier_defs new_Error_def message_text_def rejected_message_def
        e1_def e2_def isRecoverableError_def recoverablePatterns_def)
  have catch: "fetch_catch trailing_comma_config outage_source e2 2
      = (Inl (new_Error (''Content sync failed: '' @ message_text e2)), 2)"
    by (simp add: fetch_catch_def cat nrec)
  have catch': "fetch_catch trailing_comma_config outage_source e2 2 = (Inl outage_failure, 2)"
    unfolding catch
    by (simp add: outage_failure_def e2_def e1_def message_text_def new_Error_def)
  have primary: "getAllEntries trailing_comma_config outage_source
     (configured_locales trailing_comma_config) 50 0 = (Inr outage_primary, Suc 0)"
    using outage_primary_fetch by simp
  show ?thesis
    unfolding fetchContentFromContentstack_def Let_def primary
    using outage_primary_invalid by (simp add: ladder catch')
qed

lemma outage_strategy3:
  "getCoreContentTypes outage_source 2 = ([''blog_post'', ''page''], 3)"
  "syncSpecificContentTypes trailing_comma_config outage_source [''blog_post'', ''page'']
     [''en-us''] 3 = ([], 3)"
  by (simp_all add: getCoreContentTypes_def syncSpecificContentTypes_def outage_source_def)

text \<open>
  Claim C4 as stated fails. Take \<open>CONTENTSTACK_LOCALES\<close> set to "en-us," and a source
  that goes down after the first fetch. The first fetch returns two entries, the second
  with an empty locale, so it fails validation and the fallback ladder starts. The fetch
  of strategy 1 raises; the ladder re-raises it as "Fallback sync failed", strategies 2
  and 3 are never invoked, the error is not of a recoverable class, and the run ends
  with status \<open>error\<close> and raises. In the state the ladder was left in, strategy 2
  would have raised as well and strategy 3 would have found nothing: all three fail,
  yet the run does not end in \<open>no_content\<close>.
\<close>

theorem fallback_ladder_counterexample:
  "getAllEntries trailing_comma_config outage_source
      (configured_locales trailing_comma_config) 50 0 = (Inr outage_primary, 1)
   \<and> \<not> validateContentResponse outage_primary
   \<and> run trailing_comma_config outage_source sample_create sample_upsert initial_job_state 0
      = Some (Inl outage_failure,
          \<lparr>isRunning = False, lastSyncTime = None,
           syncStats = \<lparr>totalRuns = 1, successfulRuns = 0, lastRunStatus = Some ''error'',
             lastError = Some \<lparr>err_message = message outage_failure,
                                err_category = AUTHENTICATION,
                                err_timestamp = ''2024-06-01T00:00:00.000Z''\<rparr>\<rparr>\<rparr>, 2)
   \<and> fst (getAllEntries trailing_comma_config outage_source [''en-us''] 50 2)
      = Inl (new_Error (''Contentstack API error: '' @ rejected_message
               @ '' [Category: AUTHENTICATION]''))
   \<and> getCoreContentTypes outage_source 2 = ([''blog_post'', ''page''], 3)
   \<and> syncSpecificContentTypes trailing_comma_config outage_source [''blog_post'', ''page'']
        [''en-us''] 3 = ([], 3)"
proof -
  have cat: "categorizeError outage_failure = AUTHENTICATION"
    by (simp add: classifier_defs new_Error_def rejected_message_def outage_failure_def)
  have "run trailing_comma_config outage_source sample_create sample_upsert initial_job_state 0
      = Some (Inl outage_failure,
          \<lparr>isRunning = False, lastSyncTime = None,
           syncStats = \<lparr>totalRuns = 1, successfulRuns = 0, lastRunStatus = Some ''error'',
             lastError = Some \<lparr>err_message = message outage_failure,
                                err_category = AUTHENTICATION,
                                err_timestamp = ''2024-06-01T00:00:00.000Z''\<rparr>\<rparr>\<rparr>, 2)"
    unfolding run_def
    by (simp add: outage_fetch run_failed_def initial_job_state_def cat)
       (simp add: trailing_comma_config_def sample_config_def)
  then show ?thesis
    using outage_primary_fetch outage_primary_invalid outage_strategy3
      outage_getAllEntries_down[of 2 "[''en-us'']" 50]
    by simp
qed

lemma transformEntry_traced:
  "transformEntry (traced_config cfg) (now (traced_config cfg) (w, tr)) raw ct loc
     = transformEntry cfg (now cfg w) raw ct loc"
  by (simp add: transformEntry_def traced_config_def)

lemma syncSpecific_types_traced:
  "syncSpecific_types (traced_config cfg) (traced_source src) cts [''en-us''] acc (w, tr)
     = (case syncSpecific_types cfg src cts [''en-us''] acc w of
          (acc', w') \<Rightarrow> (acc', (w', tr @ map (\<lambda>ct. (ct, ''en-us'', 50, 0)) cts)))"
proof (induction cts arbitrary: acc w tr)
  case Nil
  show ?case by simp
next
  case (Cons ct cts)
  obtain r w1 where r: "getEntriesByContentType src ct ''en-us'' 50 0 w = (r, w1)"
    by (cases "getEntriesByContentType src ct ''en-us'' 50 0 w")
  have tr: "getEntriesByContentType (traced_source src) ct ''en-us'' 50 0 (w, tr)
      = (r, (w1, tr @ [(ct, ''en-us'', 50, 0)]))"
    using r by (simp add: traced_source_def)
  show ?case
    by (cases r) (simp_all add: r tr Cons.IH transformEntry_traced split: prod.splits)
qed

lemma message_text_new_Error: "message_text (new_Error m) = m"
  by (simp add: message_text_def new_Error_def)

lemma run_fetch_raises:
  assumes "fetchContentFromContentstack cfg src w = (Inl e, w')" and "\<not> isRunning st"
  shows "\<exists>st'. run cfg src create upsert st w = Some (Inl e, st', w')
     \<and> lastRunStatus (syncStats st') = Some ''error''
     \<and> successfulRuns (syncStats st') = successfulRuns (syncStats st)
     \<and> \<not> isRunning st'"
  using assms by (simp add: run_def run_failed_def Let_def)

lemma fetch_catch_not_recoverable:
  assumes "\<not> isRecoverableError (new_Error m) (categorizeError (new_Error m))"
  shows "fetch_catch cfg src (new_Error m) w
     = (Inl (new_Error (''Content sync failed: '' @ m)), w)"
  using assms by (simp add: fetch_catch_def message_text_new_Error)

lemma fetch_catch_recoverable:
  assumes "isRecoverableError (new_Error m) (categorizeError (new_Error m))"
  shows "fetch_catch cfg src (new_Error m) w
     = (case handlePartialSyncFailure cfg src [''en-us''] w of
          (Inr es, w') \<Rightarrow> (Inr es, w')
        | (Inl fallbackError, w') \<Rightarrow>
            (Inl (new_Error (''Content sync failed: '' @ m @ ''. Fallback also failed: ''
                    @ message_text fallbackError)), w'))"
  using assms
  by (simp add: fetch_catch_def message_text_new_Error del: str_includes.simps
      split: prod.splits sum.splits)

text \<open>
  Claim C4, amended. When the primary fetch result fails validation, the strategies are
  tried in the fixed order (1) all entries with page size 25 for the configured locales,
  (2) all entries with page size 50 for the locale "en-us" alone, (3) for each core
  content type one page request for "en-us" with limit 50 and skip 0, the core content
  types being the discovered types with a priority name, or the first three discovered
  when none has one (and blog_post and page when discovery fails). Each strategy runs in
  the world the previous one left. The first one that returns a non-empty valid result
  is accepted and ends the fetch phase; if all three return without such a result the
  fetch phase yields the empty list and the run ends with status \<open>no_content\<close> without
  raising.

  If the fetch of strategy 1 or 2 raises, no later strategy is tried: the error, prefixed
  "Fallback sync failed", goes to the catch block of the fetch phase. When that error is
  not of a recoverable class the fetch phase raises "Content sync failed: Fallback sync
  failed: ..." and the run ends with status \<open>error\<close> and raises it. When it is of a
  recoverable class the ladder is run once more, for "en-us": what that returns is the
  result of the fetch phase, and if it raises too the fetch phase raises "Content sync
  failed: ... Fallback also failed: ..." and the run ends with status \<open>error\<close> and
  raises it.
\<close>

theorem fallback_ladder_order:
  assumes primary: "getAllEntries cfg src (configured_locales cfg) 50 w = (Inr primaryEntries, w0)"
    and invalid: "\<not> validateContentResponse primaryEntries"
    and s1: "getAllEntries cfg src (configured_locales cfg) 25 w0 = (r1, w1)"
    and s2: "getAllEntries cfg src [''en-us''] 50 w1 = (r2, w2)"
    and core: "getCoreContentTypes src w2 = (coreContentTypes, w3)"
    and s3: "syncSpecificContentTypes cfg src coreContentTypes [''en-us''] w3 = (es3, w4)"
  shows
    "(\<forall>es1. r1 = Inr es1 \<and> accepted es1
        \<longrightarrow> fetchContentFromContentstack cfg src w = (Inr es1, w1))
     \<and> (\<forall>es1 es2. r1 = Inr es1 \<and> \<not> accepted es1 \<and> r2 = Inr es2 \<and> accepted es2
        \<longrightarrow> fetchContentFromContentstack cfg src w = (Inr es2, w2))
     \<and> (\<forall>es1 es2. r1 = Inr es1 \<and> \<not> accepted es1 \<and> r2 = Inr es2 \<and> \<not> accepted es2
          \<and> accepted es3
        \<longrightarrow> fetchContentFromContentstack cfg src w = (Inr es3, w4))
     \<and> (\<forall>es1 es2. r1 = Inr es1 \<and> \<not> accepted es1 \<and> r2 = Inr es2 \<and> \<not> accepted es2
          \<and> \<not> accepted es3
        \<longrightarrow> fetchContentFromContentstack cfg src w = (Inr [], w4)
            \<and> (\<not> isRunning st \<longrightarrow>
                 (\<exists>st'. run cfg src create upsert st w = Some (Inr (), st', w4)
                    \<and> lastRunStatus (syncStats st') = Some ''no_content''
                    \<and> successfulRuns (syncStats st') = successfulRuns (syncStats st)
                    \<and> \<not> isRunning st')))
     \<and> (\<forall>err. r1 = Inl err
        \<longrightarrow> fetchContentFromContentstack cfg src w
            = fetch_catch cfg src
                (new_Error (''Fallback sync failed: '' @ message_text err)) w1)
     \<and> (\<forall>es1 err. r1 = Inr es1 \<and> \<not> accepted es1 \<and> r2 = Inl err
        \<longrightarrow> fetchContentFromContentstack cfg src w
            = fetch_catch cfg src
                (new_Error (''Fallback sync failed: '' @ message_text err)) w2)
     \<and> (\<forall>discovered wd. getContentTypes src w2 = (Inr discovered, wd)
        \<longrightarrow> coreContentTypes
            = (if filter (\<lambda>ct. ct \<in> set priorityTypes) discovered = []
               then take 3 discovered
               else filter (\<lambda>ct. ct \<in> set priorityTypes) discovered))
     \<and> (\<forall>err wd. getContentTypes src w2 = (Inl err, wd)
        \<longrightarrow> coreContentTypes = [''blog_post'', ''page''])
     \<and> syncSpecificContentTypes (traced_config cfg) (traced_source src) coreContentTypes
          [''en-us''] (w3, [])
        = (es3, (w4, map (\<lambda>ct. (ct, ''en-us'', 50, 0)) coreContentTypes))
     \<and> (\<forall>err wr.
          (r1 = Inl err \<and> wr = w1
           \<or> (\<exists>es1. r1 = Inr es1 \<and> \<not> accepted es1 \<and> r2 = Inl err \<and> wr = w2))
        \<longrightarrow>
          (\<not> isRecoverableError (new_Error (''Fallback sync failed: '' @ message_text err))
              (categorizeError (new_Error (''Fallback sync failed: '' @ message_text err)))
           \<longrightarrow> fetchContentFromContentstack cfg src w
                 = (Inl (new_Error (''Content sync failed: '' @ ''Fallback sync failed: ''
                           @ message_text err)), wr)
               \<and> (\<not> isRunning st \<longrightarrow>
                    (\<exists>st'. run cfg src create upsert st w
                        = Some (Inl (new_Error (''Content sync failed: ''
                                  @ ''Fallback sync failed: '' @ message_text err)), st', wr)
                       \<and> lastRunStatus (syncStats st') = Some ''error''
                       \<and> successfulRuns (syncStats st') = successfulRuns (syncStats st)
                       \<and> \<not> isRunning st')))
          \<and> (isRecoverableError (new_Error (''Fallback sync failed: '' @ message_text err))
              (categorizeError (new_Error (''Fallback sync failed: '' @ message_text err)))
           \<longrightarrow> (\<forall>es' w'. handlePartialSyncFailure cfg src [''en-us''] wr = (Inr es', w')
                   \<longrightarrow> fetchContentFromContentstack cfg src w = (Inr es', w'))
               \<and> (\<forall>fe w'. handlePartialSyncFailure cfg src [''en-us''] wr = (Inl fe, w')
                   \<longrightarrow> fetchContentFromContentstack cfg src w
                        = (Inl (new_Error (''Content sync failed: ''
                             @ ''Fallback sync failed: '' @ message_text err
                             @ ''. Fallback also failed: '' @ message_text fe)), w')
                      \<and> (\<not> isRunning st \<longrightarrow>
                           (\<exists>st'. run cfg src create upsert st w
                               = Some (Inl (new_Error (''Content sync failed: ''
                                    @ ''Fallback sync failed: '' @ message_text err
                                    @ ''. Fallback also failed: '' @ message_text fe)),
                                  st', w')
                              \<and> lastRunStatus (syncStats st') = Some ''error''
                              \<and> successfulRuns (syncStats st')
                                  = successfulRuns (syncStats st)
                              \<and> \<not> isRunning st')))))"
proof -
  have fetch: "fetchContentFromContentstack cfg src w =
      (case handlePartialSyncFailure cfg src (configured_locales cfg) w0 of
         (Inr es, wl) \<Rightarrow> (Inr es, wl)
       | (Inl error, wl) \<Rightarrow> fetch_catch cfg src error wl)"
    using primary invalid by (simp add: fetchContentFromContentstack_def Let_def)
  have ladder: "handlePartialSyncFailure cfg src (configured_locales cfg) w0 =
      (case r1 of
         Inl err \<Rightarrow> (Inl (new_Error (''Fallback sync failed: '' @ message_text err)), w1)
       | Inr es1 \<Rightarrow>
           if accepted es1 then (Inr es1, w1)
           else (case r2 of
                   Inl err \<Rightarrow>
                     (Inl (new_Error (''Fallback sync failed: '' @ message_text err)), w2)
                 | Inr es2 \<Rightarrow>
                     if accepted es2 then (Inr es2, w2)
                     else if accepted es3 then (Inr es3, w4) else (Inr [], w4)))"
    using s1 s2 core s3
    by (simp add: handlePartialSyncFailure_def split: sum.splits)
  have no_content: "\<exists>st'. run cfg src create upsert st w = Some (Inr (), st', w4)
        \<and> lastRunStatus (syncStats st') = Some ''no_content''
        \<and> successfulRuns (syncStats st') = successfulRuns (syncStats st)
        \<and> \<not> isRunning st'"
    if "fetchContentFromContentstack cfg src w = (Inr [], w4)" "\<not> isRunning st"
    using that by (simp add: run_def set_status_def Let_def)
  have coreT: "coreContentTypes
            = (if filter (\<lambda>ct. ct \<in> set priorityTypes) discovered = []
               then take 3 discovered
               else filter (\<lambda>ct. ct \<in> set priorityTypes) discovered)"
    if "getContentTypes src w2 = (Inr discovered, wd)" for discovered wd
    using that core by (auto simp: getCoreContentTypes_def Let_def)
  have coreD: "coreContentTypes = [''blog_post'', ''page'']"
    if "getContentTypes src w2 = (Inl err, wd)" for err wd
    using that core by (auto simp: getCoreContentTypes_def)
  have returns: "(\<forall>es1. r1 = Inr es1 \<and> accepted es1
        \<longrightarrow> fetchContentFromContentstack cfg src w = (Inr es1, w1))
     \<and> (\<forall>es1 es2. r1 = Inr es1 \<and> \<not> accepted es1 \<and> r2 = Inr es2 \<and> accepted es2
        \<longrightarrow> fetchContentFromContentstack cfg src w = (Inr es2, w2))
     \<and> (\<forall>es1 es2. r1 = Inr es1 \<and> \<not> accepted es1 \<and> r2 = Inr es2 \<and> \<not> accepted es2
          \<and> accepted es3
        \<longrightarrow> fetchContentFromContentstack cfg src w = (Inr es3, w4))
     \<and> (\<forall>es1 es2. r1 = Inr es1 \<and> \<not> accepted es1 \<and> r2 = Inr es2 \<and> \<not> accepted es2
          \<and> \<not> accepted es3
        \<longrightarrow> fetchContentFromContentstack cfg src w = (Inr [], w4)
            \<and> (\<not> isRunning st \<longrightarrow>
                 (\<exists>st'. run cfg src create upsert st w = Some (Inr (), st', w4)
                    \<and> lastRunStatus (syncStats st') = Some ''no_content''
                    \<and> successfulRuns (syncStats st') = successfulRuns (syncStats st)
                    \<and> \<not> isRunning st')))
     \<and> (\<forall>err. r1 = Inl err
        \<longrightarrow> fetchContentFromContentstack cfg src w
            = fetch_catch cfg src
                (new_Error (''Fallback sync failed: '' @ message_text err)) w1)
     \<and> (\<forall>es1 err. r1 = Inr es1 \<and> \<not> accepted es1 \<and> r2 = Inl err
        \<longrightarrow> fetchContentFromContentstack cfg src w
            = fetch_catch cfg src
                (new_Error (''Fallback sync failed: '' @ message_text err)) w2)"
    unfolding fetch ladder
    using no_content[unfolded fetch ladder]
    by (auto simp del: str_includes.simps)
  have trace: "syncSpecificContentTypes (traced_config cfg) (traced_source src)
        coreContentTypes [''en-us''] (w3, [])
        = (es3, (w4, map (\<lambda>ct. (ct, ''en-us'', 50, 0)) coreContentTypes))"
    using s3 by (simp add: syncSpecificContentTypes_def syncSpecific_types_traced)
  have raised: "fetchContentFromContentstack cfg src w
        = fetch_catch cfg src (new_Error (''Fallback sync failed: '' @ message_text err)) wr"
    if "r1 = Inl err \<and> wr = w1
        \<or> (\<exists>es1. r1 = Inr es1 \<and> \<not> accepted es1 \<and> r2 = Inl err \<and> wr = w2)" for err wr
    using that returns by blast
  have catch: "(\<not> isRecoverableError (new_Error (''Fallback sync failed: '' @ message_text err))
              (categorizeError (new_Error (''Fallback sync failed: '' @ message_text err)))
           \<longrightarrow> fetchContentFromContentstack cfg src w
                 = (Inl (new_Error (''Content sync failed: '' @ ''Fallback sync failed: ''
                           @ message_text err)), wr)
               \<and> (\<not> isRunning st \<longrightarrow>
                    (\<exists>st'. run cfg src create upsert st w
                        = Some (Inl (new_Error (''Content sync failed: ''
                                  @ ''Fallback sync failed: '' @ message_text err)), st', wr)
                       \<and> lastRunStatus (syncStats st') = Some ''error''
                       \<and> successfulRuns (syncStats st') = successfulRuns (syncStats st)
                       \<and> \<not> isRunning st')))
          \<and> (isRecoverableError (new_Error (''Fallback sync failed: '' @ message_text err))
              (categorizeError (new_Error (''Fallback sync failed: '' @ message_text err)))
           \<longrightarrow> (\<forall>es' w'. handlePartialSyncFailure cfg src [''en-us''] wr = (Inr es', w')
                   \<longrightarrow> fetchContentFromContentstack cfg src w = (Inr es', w'))
               \<and> (\<forall>fe w'. handlePartialSyncFailure cfg src [''en-us''] wr = (Inl fe, w')
                   \<longrightarrow> fetchContentFromContentstack cfg src w
                        = (Inl (new_Error (''Content sync failed: ''
                             @ ''Fallback sync failed: '' @ message_text err
                             @ ''. Fallback also failed: '' @ message_text fe)), w')
                      \<and> (\<not> isRunning st \<longrightarrow>
                           (\<exists>st'. run cfg src create upsert st w
                               = Some (Inl (new_Error (''Content sync failed: ''
                                    @ ''Fallback sync failed: '' @ message_text err
                                    @ ''. Fallback also failed: '' @ message_text fe)),
                                  st', w')
                              \<and> lastRunStatus (syncStats st') = Some ''error''
                              \<and> successfulRuns (syncStats st')
                                  = successfulRuns (syncStats st)
                              \<and> \<not> isRunning st'))))"
    if side: "r1 = Inl err \<and> wr = w1
        \<or> (\<exists>es1. r1 = Inr es1 \<and> \<not> accepted es1 \<and> r2 = Inl err \<and> wr = w2)" for err wr
  proof -
    define m where "m = ''Fallback sync failed: '' @ message_text err"
    have f: "fetchContentFromContentstack cfg src w = fetch_catch cfg src (new_Error m) wr"
      using raised[OF side] by (simp add: m_def)
    have a: "fetchContentFromContentstack cfg src w
          = (Inl (new_Error (''Content sync failed: '' @ m)), wr)"
      if "\<not> isRecoverableError (new_Error m) (categorizeError (new_Error m))"
      unfolding f using fetch_catch_not_recoverable[OF that] .
    have b1: "fetchContentFromContentstack cfg src w = (Inr es', w')"
      if "isRecoverableError (new_Error m) (categorizeError (new_Error m))"
        "handlePartialSyncFailure cfg src [''en-us''] wr = (Inr es', w')" for es' w'
      unfolding f fetch_catch_recoverable[OF that(1)] using that(2) by simp
    have b2: "fetchContentFromContentstack cfg src w
          = (Inl (new_Error (''Content sync failed: '' @ m @ ''. Fallback also failed: ''
                    @ message_text fe)), w')"
      if "isRecoverableError (new_Error m) (categorizeError (new_Error m))"
        "handlePartialSyncFailure cfg src [''en-us''] wr = (Inl fe, w')" for fe w'
      unfolding f fetch_catch_recoverable[OF that(1)] using that(2) by simp
    note r = run_fetch_raises[of cfg src w _ _ st create upsert]
    have "(\<not> isRecoverableError (new_Error m) (categorizeError (new_Error m))
           \<longrightarrow> fetchContentFromContentstack cfg src w
                 = (Inl (new_Error (''Content sync failed: '' @ m)), wr)
               \<and> (\<not> isRunning st \<longrightarrow>
                    (\<exists>st'. run cfg src create upsert st w
                        = Some (Inl (new_Error (''Content sync failed: '' @ m)), st', wr)
                       \<and> lastRunStatus (syncStats st') = Some ''error''
                       \<and> successfulRuns (syncStats st') = successfulRuns (syncStats st)
                       \<and> \<not> isRunning st')))
          \<and> (isRecoverableError (new_Error m) (categorizeError (new_Error m))
           \<longrightarrow> (\<forall>es' w'. handlePartialSyncFailure cfg src [''en-us''] wr = (Inr es', w')
                   \<longrightarrow> fetchContentFromContentstack cfg src w = (Inr es', w'))
               \<and> (\<forall>fe w'. handlePartialSyncFailure cfg src [''en-us''] wr = (Inl fe, w')
                   \<longrightarrow> fetchContentFromContentstack cfg src w
                        = (Inl (new_Error (''Content sync failed: '' @ m
                             @ ''. Fallback also failed: '' @ message_text fe)), w')
                      \<and> (\<not> isRunning st \<longrightarrow>
                           (\<exists>st'. run cfg src create upsert st w
                               = Some (Inl (new_Error (''Content sync failed: '' @ m
                                    @ ''. Fallback also failed: '' @ message_text fe)),
                                  st', w')
                              \<and> lastRunStatus (syncStats st') = Some ''error''
                              \<and> successfulRuns (syncStats st')
                                  = successfulRuns (syncStats st)
                              \<and> \<not> isRunning st'))))"
    proof (intro conjI impI allI)
      assume n: "\<not> isRecoverableError (new_Error m) (categorizeError (new_Error m))"
      show "fetchContentFromContentstack cfg src w
                 = (Inl (new_Error (''Content sync failed: '' @ m)), wr)"
        by (rule a[OF n])
      assume "\<not> isRunning st"
      from r[OF a[OF n] this]
      show "\<exists>st'. run cfg src create upsert st w
                        = Some (Inl (new_Error (''Content sync failed: '' @ m)), st', wr)
                       \<and> lastRunStatus (syncStats st') = Some ''error''
                       \<and> successfulRuns (syncStats st') = successfulRuns (syncStats st)
                       \<and> \<not> isRunning st'" .
    next
      fix es' w'
      assume "isRecoverableError (new_Error m) (categorizeError (new_Error m))"
        "handlePartialSyncFailure cfg src [''en-us''] wr = (Inr es', w')"
      then show "fetchContentFromContentstack cfg src w = (Inr es', w')" by (rule b1)
    next
      fix fe w'
      assume h: "isRecoverableError (new_Error m) (categorizeError (new_Error m))"
        "handlePartialSyncFailure cfg src [''en-us''] wr = (Inl fe, w')"
      show "fetchContentFromContentstack cfg src w
                        = (Inl (new_Error (''Content sync failed: '' @ m
                             @ ''. Fallback also failed: '' @ message_text fe)), w')"
        by (rule b2[OF h])
      assume "\<not> isRunning st"
      from r[OF b2[OF h] this]
      show "\<exists>st'. run cfg src create upsert st w
                               = Some (Inl (new_Error (''Content sync failed: '' @ m
                                    @ ''. Fallback also failed: '' @ message_text fe)),
                                  st', w')
                              \<and> lastRunStatus (syncStats st') = Some ''error''
                              \<and> successfulRuns (syncStats st')
                                  = successfulRuns (syncStats st)
                              \<and> \<not> isRunning st'" .
    qed
    then show ?thesis unfolding m_def by (simp only: append_assoc)
  qed
  show ?thesis
  proof -
    have tail: "(\<forall>discovered wd. getContentTypes src w2 = (Inr discovered, wd)
        \<longrightarrow> coreContentTypes
            = (if filter (\<lambda>ct. ct \<in> set priorityTypes) discovered = []
               then take 3 discovered
               else filter (\<lambda>ct. ct \<in> set priorityTypes) discovered))
     \<and> (\<forall>err wd. getContentTypes src w2 = (Inl err, wd)
        \<longrightarrow> coreContentTypes = [''blog_post'', ''page''])"
      using coreT coreD by blast
    show ?thesis
      apply (insert returns)
      apply (elim conjE)
      apply (intro conjI)
               apply assumption
              apply assumption
             apply assumption
            apply assumption
           apply assumption
          apply assumption
         apply (rule tail[THEN conjunct1])
        apply (rule tail[THEN conjunct2])
       apply (rule trace)
      apply (intro allI impI)
      apply (rule catch)
      apply assumption
      done
  qed
qed

lemma blank_page:
  assumes "bs \<noteq> 1"
  shows "fetch_pages blank_locale_config blank_locale_source ''blog_post'' [] bs 0 0 [] w
     = ([blank_entry], Suc 0, False, Suc w)"
proof -
  have r: "getEntriesByContentType blank_locale_source ''blog_post'' [] bs 0 w
      = (Inr \<lparr>entries = [sample_raw ''e1''], count = 1\<rparr>, Suc w)"
    by (simp add: blank_locale_source_def)
  show ?thesis
    unfolding fetch_pages_unfold[OF r] using assms
    by (simp add: page_continues_def blank_locale_config_def sample_config_def blank_entry_def)
qed

lemma other_page:
  "fetch_pages blank_locale_config blank_locale_source ''blog_post'' ''en-us'' bs 0 0 [] w
     = ([], Suc 0, False, Suc w)"
proof -
  have r: "getEntriesByContentType blank_locale_source ''blog_post'' ''en-us'' bs 0 w
      = (Inr \<lparr>entries = [], count = 0\<rparr>, Suc w)"
    by (simp add: blank_locale_source_def)
  show ?thesis unfolding fetch_pages_unfold[OF r] by simp
qed

lemma blank_invalid: "\<not> validateContentResponse [blank_entry]" "\<not> accepted [blank_entry]"
  by (simp_all add: accepted_def validateContentResponse_def has_required_fields_def
      blank_entry_def transformEntry_def)

lemma blank_locales: "configured_locales blank_locale_config = [[]]"
  by (simp add: configured_locales_def blank_locale_config_def)

lemma blank_fetches:
  "getAllEntries blank_locale_config blank_locale_source [[]] 50 0 = (Inr [blank_entry], 1)"
  "getAllEntries blank_locale_config blank_locale_source [[]] 25 1 = (Inr [blank_entry], 2)"
  "getAllEntries blank_locale_config blank_locale_source [''en-us''] 50 2 = (Inr [], 3)"
  "getCoreContentTypes blank_locale_source 3 = ([''blog_post''], 3)"
  "syncSpecificContentTypes blank_locale_config blank_locale_source [''blog_post'']
     [''en-us''] 3 = ([], 4)"
  by (simp_all add: getAllEntries_def blank_page other_page getCoreContentTypes_def
      priorityTypes_def syncSpecificContentTypes_def
      blank_locale_source_def[THEN arg_cong[of _ _ getContentTypes]]
      blank_locale_source_def[THEN arg_cong[of _ _ getEntriesByContentType]])

lemma outage_not_recoverable:
  "\<not> isRecoverableError
       (new_Error (''Fallback sync failed: '' @ message_text (new_Error
          (''Contentstack API error: '' @ rejected_message @ '' [Category: AUTHENTICATION]''))))
       (categorizeError
         (new_Error (''Fallback sync failed: '' @ message_text (new_Error
            (''Contentstack API error: '' @ rejected_message
               @ '' [Category: AUTHENTICATION]'')))))"
  by (simp add: classifier_defs new_Error_def message_text_def rejected_message_def
      isRecoverableError_def recoverablePatterns_def)

lemma outage_core_down:
  "0 < w \<Longrightarrow> getCoreContentTypes outage_source w = ([''blog_post'', ''page''], Suc w)"
  by (simp add: getCoreContentTypes_def outage_source_def)

lemma outage_specific_down:
  "w \<noteq> 1 \<Longrightarrow> syncSpecificContentTypes trailing_comma_config outage_source
     [''blog_post'', ''page''] [''en-us''] w = ([], w)"
  by (simp add: syncSpecificContentTypes_def outage_source_def)

theorem fallback_ladder_order_witness:
  "(\<exists>st'. run blank_locale_config blank_locale_source sample_create sample_upsert
       initial_job_state 0 = Some (Inr (), st', 4)
     \<and> lastRunStatus (syncStats st') = Some ''no_content''
     \<and> successfulRuns (syncStats st') = 0
     \<and> \<not> isRunning st')
   \<and> (\<exists>st'. run trailing_comma_config outage_source sample_create sample_upsert
       initial_job_state 0 = Some (Inl outage_failure, st', 2)
     \<and> lastRunStatus (syncStats st') = Some ''error''
     \<and> successfulRuns (syncStats st') = 0
     \<and> \<not> isRunning st')"
proof
  have idle: "\<not> isRunning initial_job_state" by (simp add: initial_job_state_def)
  note ladder = fallback_ladder_order[of blank_locale_config blank_locale_source 0
      "[blank_entry]" 1 "Inr [blank_entry]" 2 "Inr []" 3 "[''blog_post'']" 3 "[]" 4
      initial_job_state sample_create sample_upsert,
      unfolded blank_locales, OF blank_fetches(1) blank_invalid(1) blank_fetches(2-5)]
  note c4 = ladder[THEN conjunct2, THEN conjunct2, THEN conjunct2, THEN conjunct1,
      rule_format, of "[blank_entry]" "[]"]
  have "\<not> accepted [blank_entry]" "\<not> accepted ([] :: unit content_entry list)"
    using blank_invalid by (simp_all add: accepted_def)
  with c4 idle obtain st' where
    "run blank_locale_config blank_locale_source sample_create sample_upsert
       initial_job_state 0 = Some (Inr (), st', 4)"
    "lastRunStatus (syncStats st') = Some ''no_content''"
    "successfulRuns (syncStats st') = successfulRuns (syncStats initial_job_state)"
    "\<not> isRunning st'"
    by blast
  then show "\<exists>st'. run blank_locale_config blank_locale_source sample_create sample_upsert
       initial_job_state 0 = Some (Inr (), st', 4)
     \<and> lastRunStatus (syncStats st') = Some ''no_content''
     \<and> successfulRuns (syncStats st') = 0
     \<and> \<not> isRunning st'"
    by (auto simp: initial_job_state_def)
next
  define e1 where "e1 = new_Error (''Contentstack API error: '' @ rejected_message
      @ '' [Category: AUTHENTICATION]'')"
  have idle: "\<not> isRunning initial_job_state" by (simp add: initial_job_state_def)
  have s1: "getAllEntries trailing_comma_config outage_source
      (configured_locales trailing_comma_config) 25 1 = (Inl e1, 2)"
    using outage_getAllEntries_down[of 1 "configured_locales trailing_comma_config" 25]
    by (simp add: e1_def)
  have s2: "getAllEntries trailing_comma_config outage_source [''en-us''] 50 2 = (Inl e1, 3)"
    using outage_getAllEntries_down[of 2 "[''en-us'']" 50] by (simp add: e1_def)
  have core: "getCoreContentTypes outage_source 3 = ([''blog_post'', ''page''], 4)"
    using outage_core_down[of 3] by simp
  have s3: "syncSpecificContentTypes trailing_comma_config outage_source
      [''blog_post'', ''page''] [''en-us''] 4 = ([], 4)"
    using outage_specific_down[of 4] by simp
  note ladder = fallback_ladder_order[of trailing_comma_config outage_source 0
      outage_primary 1 "Inl e1" 2 "Inl e1" 3 "[''blog_post'', ''page'']" 4 "[]" 4
      initial_job_state sample_create sample_upsert,
      OF outage_primary_fetch outage_primary_invalid s1 s2 core s3]
  note c10 = ladder[THEN conjunct2, THEN conjunct2, THEN conjunct2, THEN conjunct2,
      THEN conjunct2, THEN conjunct2, THEN conjunct2, THEN conjunct2, THEN conjunct2,
      rule_format, of e1 2, THEN conjunct1, rule_format]
  have side: "(Inl e1 :: js_error + unit content_entry list) = Inl e1 \<and> (2::nat) = 2
      \<or> (\<exists>es1. (Inl e1 :: js_error + unit content_entry list) = Inr es1 \<and> \<not> accepted es1
            \<and> (Inl e1 :: js_error + unit content_entry list) = Inl e1 \<and> (2::nat) = 3)"
    by simp
  have nrec: "\<not> isRecoverableError (new_Error (''Fallback sync failed: '' @ message_text e1))
      (categorizeError (new_Error (''Fallback sync failed: '' @ message_text e1)))"
    unfolding e1_def by (rule outage_not_recoverable)
  from c10[OF side nrec] idle obtain st' where
    "run trailing_comma_config outage_source sample_create sample_upsert initial_job_state 0
       = Some (Inl (new_Error (''Content sync failed: '' @ ''Fallback sync failed: ''
                      @ message_text e1)), st', 2)"
    "lastRunStatus (syncStats st') = Some ''error''"
    "successfulRuns (syncStats st') = successfulRuns (syncStats initial_job_state)"
    "\<not> isRunning st'"
    by blast
  moreover have "new_Error (''Content sync failed: '' @ ''Fallback sync failed: ''
      @ message_text e1) = outage_failure"
    by (simp add: e1_def outage_failure_def message_text_new_Error)
  ultimately show "\<exists>st'. run trailing_comma_config outage_source sample_create sample_upsert
       initial_job_state 0 = Some (Inl outage_failure, st', 2)
     \<and> lastRunStatus (syncStats st') = Some ''error''
     \<and> successfulRuns (syncStats st') = 0
     \<and> \<not> isRunning st'"
    by (auto simp: initial_job_state_def)
qed

end
